theory Spec2Isabelle
  imports Complex_Main "HOL-Library.Word" "HOL-Library.Log_Nat"
begin

section \<open>Numbers, buffers and bytes\<close>

text \<open>
  The audio service (\<^verbatim>\<open>services/audioService.ts\<close>) computes on JavaScript numbers. They are
  modelled as exact reals (times, gains, samples) and as integers (byte counts, quantized
  samples). The rounding of IEEE doubles is modelled in one place, the cursor of the tag
  loop (step 7), where the number of passes of a loop depends on it; elsewhere it is not
  part of the model, and every concrete input at which a result below departs from the
  specification is one on which the double arithmetic of the source is exact.
\<close>

type_synonym byte = "8 word"

text \<open>
  An \<^verbatim>\<open>AudioBuffer\<close> of the Web Audio API: \<^verbatim>\<open>getChannelData(c)\<close> is a Float32Array of
  \<^verbatim>\<open>length\<close> samples, read here as a function of the frame index.
\<close>

record AudioBuffer =
  numberOfChannels :: nat
  length_buf :: nat
  sampleRate :: nat
  getChannelData :: "nat \<Rightarrow> nat \<Rightarrow> real"

definition duration :: "AudioBuffer \<Rightarrow> real" where
  "duration buffer = real (length_buf buffer) / real (sampleRate buffer)"

section \<open>calculateRMS\<close>

text \<open>
  The loop \<^verbatim>\<open>for (let i = 0; i < data.length; i += step) sum += data[i] * data[i]\<close>, and
  the root of the sum over \<^verbatim>\<open>data.length / step\<close>, a division of numbers, not of integers.
  (For a buffer of no frames the source computes NaN and the model 0; the one use of the
  result, the test \<^verbatim>\<open>rms > 0\<close>, is false for both.)
\<close>

function sumSquares :: "(nat \<Rightarrow> real) \<Rightarrow> nat \<Rightarrow> nat \<Rightarrow> real \<Rightarrow> real" where
  "sumSquares data n i s =
     (if i < n then sumSquares data n (i + 4) (s + data i * data i) else s)"
  by pat_completeness auto
termination
  by (relation "measure (\<lambda>(data, n, i, s). n - i)") auto

declare sumSquares.simps [simp del]

definition calculateRMS :: "AudioBuffer \<Rightarrow> real" where
  "calculateRMS buffer =
     (let data = getChannelData buffer 0;
          step = 4
      in sqrt (sumSquares data (length_buf buffer) 0 0 / (real (length_buf buffer) / step)))"

text \<open>
  The loudness measure as the specification words it: the root of the mean of the squared
  samples, the mean taken over the frames that are sampled (every 4th frame of channel 0).
\<close>

definition sampledFrames :: "AudioBuffer \<Rightarrow> nat list" where
  "sampledFrames buffer = filter (\<lambda>i. i mod 4 = 0) [0..<length_buf buffer]"

definition rms_spec :: "AudioBuffer \<Rightarrow> real" where
  "rms_spec buffer =
     sqrt ((\<Sum>i\<leftarrow>sampledFrames buffer. (getChannelData buffer 0 i)\<^sup>2)
           / real (length (sampledFrames buffer)))"

section \<open>bufferToWav\<close>

subsection \<open>Quantization of one sample\<close>

definition clampSample :: "real \<Rightarrow> real" where
  "clampSample x = max (- 1) (min 1 x)"

text \<open>JavaScript's \<^verbatim>\<open>x | 0\<close>: drop the fraction, then wrap into the signed 32-bit range.\<close>

definition truncToZero :: "real \<Rightarrow> int" where
  "truncToZero x = (if x < 0 then \<lceil>x\<rceil> else \<lfloor>x\<rfloor>)"

definition toInt32 :: "real \<Rightarrow> int" where
  "toInt32 x = (truncToZero x + 2 ^ 31) mod 2 ^ 32 - 2 ^ 31"

text \<open>
  \<^verbatim>\<open>(0.5 + sample < 0 ? sample * 32768 : sample * 32767) | 0\<close>: the comparison binds
  weaker than the addition, so the test is \<open>0.5 + sample < 0\<close>.
\<close>

definition scaleSample :: "real \<Rightarrow> int" where
  "scaleSample sample =
     toInt32 (if 0.5 + sample < 0 then sample * 32768 else sample * 32767)"

definition quantize :: "real \<Rightarrow> int" where
  "quantize x = scaleSample (clampSample x)"

text \<open>
  The quantization as the specification words it: clamp, then scale negative values by
  32768 and non-negative values by 32767, truncating toward zero.
\<close>

definition quantize_spec :: "real \<Rightarrow> int" where
  "quantize_spec x =
     (let c = clampSample x in truncToZero (if c < 0 then c * 32768 else c * 32767))"

subsection \<open>The DataView and its cursor\<close>

text \<open>
  \<^verbatim>\<open>view\<close> is a DataView on an ArrayBuffer of \<^verbatim>\<open>length\<close> zero bytes; \<^verbatim>\<open>pos\<close> is the
  cursor that the two local helpers \<^verbatim>\<open>setUint16\<close> and \<^verbatim>\<open>setUint32\<close> advance. All writes
  are little-endian and keep the low bits of the number they are given (\<open>of_int\<close> into a
  byte is reduction modulo 256).
\<close>

record Writer =
  view :: "byte list"
  pos :: nat

definition view_setUint16 :: "byte list \<Rightarrow> nat \<Rightarrow> int \<Rightarrow> byte list" where
  "view_setUint16 v p d = v[p := of_int d, p + 1 := of_int (d div 256)]"

definition view_setUint32 :: "byte list \<Rightarrow> nat \<Rightarrow> int \<Rightarrow> byte list" where
  "view_setUint32 v p d =
     v[p := of_int d, p + 1 := of_int (d div 256),
       p + 2 := of_int (d div 65536), p + 3 := of_int (d div 16777216)]"

definition view_setInt16 :: "byte list \<Rightarrow> nat \<Rightarrow> int \<Rightarrow> byte list" where
  "view_setInt16 v p d = v[p := of_int d, p + 1 := of_int (d div 256)]"

definition setUint16 :: "int \<Rightarrow> Writer \<Rightarrow> Writer" where
  "setUint16 d w = \<lparr>view = view_setUint16 (view w) (pos w) d, pos = pos w + 2\<rparr>"

definition setUint32 :: "int \<Rightarrow> Writer \<Rightarrow> Writer" where
  "setUint32 d w = \<lparr>view = view_setUint32 (view w) (pos w) d, pos = pos w + 4\<rparr>"

text \<open>Reading back, as \<^verbatim>\<open>DataView.getUint16/getUint32(p, true)\<close> do.\<close>

definition getUint16 :: "byte list \<Rightarrow> nat \<Rightarrow> nat" where
  "getUint16 v p = unat (v ! p) + 256 * unat (v ! (p + 1))"

definition getUint32 :: "byte list \<Rightarrow> nat \<Rightarrow> nat" where
  "getUint32 v p =
     unat (v ! p) + 256 * unat (v ! (p + 1)) + 65536 * unat (v ! (p + 2))
       + 16777216 * unat (v ! (p + 3))"

definition getAscii :: "byte list \<Rightarrow> nat \<Rightarrow> nat \<Rightarrow> string" where
  "getAscii v p n = map (\<lambda>i. char_of (unat (v ! i))) [p..<p + n]"

subsection \<open>Header and interleaved data\<close>

definition writeHeader :: "AudioBuffer \<Rightarrow> int \<Rightarrow> Writer \<Rightarrow> Writer" where
  "writeHeader buffer len w0 =
     (let numOfChan = int (numberOfChannels buffer);
          w1 = setUint32 0x46464952 w0;
          w2 = setUint32 (len - 8) w1;
          w3 = setUint32 0x45564157 w2;
          w4 = setUint32 0x20746d66 w3;
          w5 = setUint32 16 w4;
          w6 = setUint16 1 w5;
          w7 = setUint16 numOfChan w6;
          w8 = setUint32 (int (sampleRate buffer)) w7;
          w9 = setUint32 (int (sampleRate buffer) * 2 * numOfChan) w8;
          w10 = setUint16 (numOfChan * 2) w9;
          w11 = setUint16 16 w10;
          w12 = setUint32 0x61746164 w11
      in setUint32 (len - int (pos w12) - 4) w12)"

text \<open>
  One pass of the inner \<^verbatim>\<open>for\<close> loop: channel \<open>i\<close> of frame \<open>p\<close> is clamped, scaled and
  written at byte \<open>44 + offset\<close>.
\<close>

definition writeSample ::
  "AudioBuffer \<Rightarrow> nat \<Rightarrow> nat \<Rightarrow> byte list \<times> nat \<Rightarrow> byte list \<times> nat" where
  "writeSample buffer p i st =
     (case st of (v, offset) \<Rightarrow>
        (view_setInt16 v (44 + offset) (quantize (getChannelData buffer i p)), offset + 2))"

text \<open>
  The outer loop \<^verbatim>\<open>while (pos < buffer.length) { ...; pos++ }\<close>. It continues with the
  cursor the header left behind, so it starts at frame 44.
\<close>

function interleave :: "AudioBuffer \<Rightarrow> nat \<Rightarrow> byte list \<times> nat \<Rightarrow> byte list \<times> nat" where
  "interleave buffer p st =
     (if p < length_buf buffer
      then interleave buffer (p + 1)
             (fold (writeSample buffer p) [0..<numberOfChannels buffer] st)
      else st)"
  by pat_completeness auto
termination
  by (relation "measure (\<lambda>(buffer, p, st). length_buf buffer - p)") auto

declare interleave.simps [simp del]

record Blob =
  bytes :: "byte list"
  type_blob :: string

definition wavLength :: "AudioBuffer \<Rightarrow> int" where
  "wavLength buffer = int (length_buf buffer) * int (numberOfChannels buffer) * 2 + 44"

definition bufferToWav :: "AudioBuffer \<Rightarrow> Blob" where
  "bufferToWav buffer =
     (let len = wavLength buffer;
          w = writeHeader buffer len \<lparr>view = replicate (nat len) 0, pos = 0\<rparr>;
          (v, offset) = interleave buffer (pos w) (view w, 0)
      in \<lparr>bytes = v, type_blob = ''audio/wav''\<rparr>)"

section \<open>createDemoMix\<close>

subsection \<open>Options, platform and effects\<close>

text \<open>
  A \<^verbatim>\<open>File\<close> is its bytes. \<^verbatim>\<open>onProgress\<close> records whether a callback was passed; the
  calls themselves appear in the effect log.
\<close>

type_synonym File = "byte list"

record AudioTrack =
  id_track :: string
  file_track :: File
  name :: string
  duration_track :: real
  url :: string

record CreateDemoOptions =
  tracks :: "AudioTrack list"
  normalize_opt :: bool
  onProgress :: bool
  segmentDuration :: real
  fadeDuration :: real
  silenceGap :: real
  tagFile :: "File option"
  tagInterval :: real

text \<open>The defaults of the destructured parameter.\<close>

definition defaultOptions :: "AudioTrack list \<Rightarrow> CreateDemoOptions" where
  "defaultOptions ts =
     \<lparr>tracks = ts, normalize_opt = False, onProgress = False, segmentDuration = 25,
      fadeDuration = 0.5, silenceGap = 0.3, tagFile = None, tagInterval = 30\<rparr>"

text \<open>
  What the function builds in the offline context: per source a buffer, the gain node's
  \<^verbatim>\<open>gain.value\<close> and the automation events put on it, the time passed to \<^verbatim>\<open>start\<close> and
  the time passed to \<^verbatim>\<open>stop\<close>, if any. Every gain node feeds the one compressor.
\<close>

datatype automation = SetValueAtTime real real | LinearRampToValueAtTime real real

record ScheduledSource =
  buffer_src :: AudioBuffer
  gain_value :: real
  gain_events :: "automation list"
  start :: real
  stop :: "real option"

record Compressor =
  threshold :: real
  knee :: real
  ratio :: real
  attack :: real
  release :: real

record OfflineContext =
  channels_ctx :: nat
  length_ctx :: nat
  sampleRate_ctx :: nat
  compressor :: Compressor
  sources :: "ScheduledSource list"

text \<open>
  The two calls into the platform whose outcome the function cannot compute:
  \<^verbatim>\<open>decodeAudioData\<close> (\<open>None\<close> when the promise rejects) and \<^verbatim>\<open>startRendering\<close>, which
  yields the samples of each channel of the rendered buffer (\<open>None\<close> when it rejects).
\<close>

record Platform =
  decodeAudioData :: "File \<Rightarrow> AudioBuffer option"
  startRendering :: "OfflineContext \<Rightarrow> (nat \<Rightarrow> nat \<Rightarrow> real) option"

datatype effect =
    Progress int
  | NewAudioContext nat
  | DecodeAudio File
  | ConsoleError string
  | ConsoleWarn string
  | CloseContext
  | NewOfflineAudioContext nat int nat
  | StartRendering
  | NewArrayBuffer int

text \<open>
  How a call ends without a result: with the \<^verbatim>\<open>Error\<close> the function throws, with the
  platform's refusal to create the offline context or to render, or not at all, when the tag
  loop runs forever (\<open>NeverReturns\<close> is then no value of the source, it stands for the call
  that does not come back).
\<close>

datatype error = Error string | NotSupportedError | RenderingRejected | NeverReturns

record DemoResult =
  wav :: Blob
  mp3 :: Blob

definition progress :: "CreateDemoOptions \<Rightarrow> int \<Rightarrow> effect list" where
  "progress opts percent = (if onProgress opts then [Progress percent] else [])"

text \<open>\<^verbatim>\<open>Array.prototype.forEach\<close> with the index, threading the variables the callback updates.\<close>

fun forEach :: "('a \<Rightarrow> nat \<Rightarrow> 's \<Rightarrow> 's) \<Rightarrow> 'a list \<Rightarrow> nat \<Rightarrow> 's \<Rightarrow> 's" where
  "forEach f [] index s = s"
| "forEach f (x # xs) index s = forEach f xs (index + 1) (f x index s)"

subsection \<open>2. Decoding\<close>

text \<open>
  The loop over the tracks: the first track that does not decode ends the whole call with
  an error, after \<^verbatim>\<open>console.error\<close>.
\<close>

fun decodeTracks ::
  "Platform \<Rightarrow> CreateDemoOptions \<Rightarrow> nat \<Rightarrow> nat \<Rightarrow> AudioTrack list
     \<Rightarrow> effect list \<times> (error + AudioBuffer list)" where
  "decodeTracks env opts totalTracks i [] = ([], Inr [])"
| "decodeTracks env opts totalTracks i (track # rest) =
     (let logged = progress opts (10 + \<lfloor>real i / real totalTracks * 30\<rfloor>)
                  @ [DecodeAudio (file_track track)]
      in case decodeAudioData env (file_track track) of
           None \<Rightarrow>
             (logged @ [ConsoleError (''Failed to decode '' @ name track)],
              Inl (Error (''Could not decode audio file: '' @ name track)))
         | Some buffer \<Rightarrow>
             (case decodeTracks env opts totalTracks (i + 1) rest of
                (logged', Inl e) \<Rightarrow> (logged @ logged', Inl e)
              | (logged', Inr decodedBuffers) \<Rightarrow> (logged @ logged', Inr (buffer # decodedBuffers))))"

text \<open>The tag file: a failure is caught, warned about, and leaves \<^verbatim>\<open>tagBuffer\<close> null.\<close>

definition decodeTag :: "Platform \<Rightarrow> File option \<Rightarrow> effect list \<times> AudioBuffer option" where
  "decodeTag env tf =
     (case tf of
        None \<Rightarrow> ([], None)
      | Some f \<Rightarrow>
          (case decodeAudioData env f of
             Some tagBuffer \<Rightarrow> ([DecodeAudio f], Some tagBuffer)
           | None \<Rightarrow>
               ([DecodeAudio f,
                 ConsoleWarn ''Failed to decode tag file, proceeding without tags.''],
                None)))"

subsection \<open>3. Gain adjustments\<close>

definition TARGET_RMS :: real where
  "TARGET_RMS = 0.15"

definition levelTrack :: "AudioBuffer \<Rightarrow> nat \<Rightarrow> real list \<Rightarrow> real list" where
  "levelTrack buffer idx gains =
     (let rms = calculateRMS buffer
      in if rms > 0 then gains[idx := min (max (TARGET_RMS / rms) 0.5) 3.0] else gains)"

definition gainAdjustments :: "bool \<Rightarrow> AudioBuffer list \<Rightarrow> real list" where
  "gainAdjustments normalizing decodedBuffers =
     (let filled = replicate (length decodedBuffers) 1
      in if normalizing then forEach levelTrack decodedBuffers 0 filled else filled)"

subsection \<open>4. Timeline\<close>

text \<open>The state is \<^verbatim>\<open>(totalOutputDuration, trackDurations)\<close>.\<close>

definition addTrack ::
  "real \<Rightarrow> real \<Rightarrow> nat \<Rightarrow> AudioBuffer \<Rightarrow> nat \<Rightarrow> real \<times> real list \<Rightarrow> real \<times> real list" where
  "addTrack segDur gap n buffer index st =
     (case st of (totalDur, trackDurations) \<Rightarrow>
        (let playDuration = min (duration buffer) segDur;
             totalDur' = totalDur + playDuration
         in (if int index < int n - 1 then totalDur' + gap else totalDur',
             trackDurations @ [playDuration])))"

definition timeline :: "real \<Rightarrow> real \<Rightarrow> AudioBuffer list \<Rightarrow> real \<times> real list" where
  "timeline segDur gap decodedBuffers =
     forEach (addTrack segDur gap (length decodedBuffers)) decodedBuffers 0 (0, [])"

definition totalOutputDuration :: "CreateDemoOptions \<Rightarrow> AudioBuffer list \<Rightarrow> real" where
  "totalOutputDuration opts decodedBuffers =
     fst (timeline (segmentDuration opts) (silenceGap opts) decodedBuffers)"

subsection \<open>6. Scheduling the tracks\<close>

text \<open>
  The state is \<^verbatim>\<open>(cursor, sources created so far)\<close>. A gain node starts with
  \<^verbatim>\<open>gain.value = 1\<close>; it is overwritten only when normalizing.
\<close>

definition scheduleTrack ::
  "CreateDemoOptions \<Rightarrow> real list \<Rightarrow> real list \<Rightarrow> AudioBuffer \<Rightarrow> nat
     \<Rightarrow> real \<times> ScheduledSource list \<Rightarrow> real \<times> ScheduledSource list" where
  "scheduleTrack opts gains trackDurations buffer index st =
     (case st of (cursor, srcs) \<Rightarrow>
        (let gainValue = (if normalize_opt opts then gains ! index else 1);
             playDuration = trackDurations ! index;
             startTime = cursor;
             endTime = startTime + playDuration;
             fadeStartTime = max startTime (endTime - fadeDuration opts);
             initialGain = (if normalize_opt opts then gains ! index else 1.0);
             src = \<lparr>buffer_src = buffer, gain_value = gainValue,
                    gain_events = [SetValueAtTime initialGain fadeStartTime,
                                   LinearRampToValueAtTime 0 endTime],
                    start = startTime, stop = Some endTime\<rparr>
         in (cursor + playDuration + silenceGap opts, srcs @ [src])))"

definition scheduleTracks ::
  "CreateDemoOptions \<Rightarrow> AudioBuffer list \<Rightarrow> ScheduledSource list" where
  "scheduleTracks opts decodedBuffers =
     (let gains = gainAdjustments (normalize_opt opts) decodedBuffers;
          trackDurations = snd (timeline (segmentDuration opts) (silenceGap opts) decodedBuffers)
      in snd (forEach (scheduleTrack opts gains trackDurations) decodedBuffers 0 (0, [])))"

subsection \<open>7. Scheduling the tags\<close>

text \<open>
  The tag cursor is advanced by \<^verbatim>\<open>tagCursor += tagInterval\<close>, an addition of doubles, and
  the number of tags depends on how it rounds. \<open>toDouble\<close> is the rounding of IEEE 754
  binary64, to the nearest double with ties to the even significand: a number in the
  binade \<open>[2^e, 2^(e+1))\<close> is rounded to a multiple of \<open>2^(e-52)\<close>, and a number below
  \<open>2^-1022\<close> to a multiple of \<open>2^-1074\<close>. Overflow to Infinity is left out: the cursor stays
  below the total duration plus one interval. \<open>fadd\<close> is the sum of two doubles.

  \<open>binade x\<close> is the exponent \<open>e\<close> of the binade of \<open>x\<close>, the floor of its binary logarithm, and
  at least -1022. It is computed from the bit length of an integer: of the integer part
  of \<open>\<bar>x\<bar>\<close> from 1 on, where \<open>2^e \<le> \<lfloor>\<bar>x\<bar>\<rfloor> < 2^(e+1)\<close>, and of the reciprocal rounded up below
  1, where \<open>2^(-e-1) < \<lceil>1 / \<bar>x\<bar>\<rceil> \<le> 2^-e\<close>.
\<close>

definition binade :: "real \<Rightarrow> int" where
  "binade x =
     max (if 1 \<le> \<bar>x\<bar> then bitlen \<lfloor>\<bar>x\<bar>\<rfloor> - 1 else - bitlen (\<lceil>1 / \<bar>x\<bar>\<rceil> - 1)) (- 1022)"

definition ulp :: "real \<Rightarrow> real" where
  "ulp x = 2 powi (binade x - 52)"

definition roundHalfEven :: "real \<Rightarrow> int" where
  "roundHalfEven q =
     (let f = \<lfloor>q\<rfloor>; r = q - of_int f
      in if r < 1 / 2 then f else if 1 / 2 < r then f + 1 else if even f then f else f + 1)"

definition toDouble :: "real \<Rightarrow> real" where
  "toDouble x = (if x = 0 then 0 else of_int (roundHalfEven (x / ulp x)) * ulp x)"

definition fadd :: "real \<Rightarrow> real \<Rightarrow> real" where
  "fadd x y = toDouble (x + y)"

definition tagSource :: "AudioBuffer \<Rightarrow> real \<Rightarrow> ScheduledSource" where
  "tagSource tagBuffer tagCursor =
     \<lparr>buffer_src = tagBuffer, gain_value = 0.4, gain_events = [],
      start = tagCursor, stop = None\<rparr>"

text \<open>
  The loop \<^verbatim>\<open>while (tagCursor < totalOutputDuration) { ...; tagCursor += tagInterval }\<close>,
  collecting the tag sources it creates. It need not end: an interval that the addition
  rounds away leaves the cursor where it is. \<open>None\<close> is the loop that does not end.
\<close>

partial_function (option) tagLoop ::
  "AudioBuffer \<Rightarrow> real \<Rightarrow> real \<Rightarrow> real \<Rightarrow> ScheduledSource list \<Rightarrow> ScheduledSource list option" where
  "tagLoop tagBuffer interval totalDur tagCursor srcs =
     (if tagCursor < totalDur
      then tagLoop tagBuffer interval totalDur (fadd tagCursor interval)
             (srcs @ [tagSource tagBuffer tagCursor])
      else Some srcs)"

declare tagLoop.simps [code]

definition scheduleTags ::
  "AudioBuffer option \<Rightarrow> real \<Rightarrow> real \<Rightarrow> ScheduledSource list option" where
  "scheduleTags tagBuffer interval totalDur =
     (case tagBuffer of
        None \<Rightarrow> Some []
      | Some tb \<Rightarrow>
          if interval > 0
          then tagLoop tb interval totalDur (min 5 (totalDur / 2)) []
          else Some [])"

subsection \<open>5, 8, 9. Rendering and encoding\<close>

definition masterCompressor :: Compressor where
  "masterCompressor =
     \<lparr>threshold = - 20, knee = 10, ratio = 4, attack = 0.003, release = 0.25\<rparr>"

text \<open>
  \<^verbatim>\<open>new OfflineAudioContext(2, Math.ceil(sampleRate * totalOutputDuration), sampleRate)\<close>:
  the length is an \<^verbatim>\<open>unsigned long\<close>, so the number is reduced modulo \<open>2^32\<close>, and a
  length of 0 is refused with a NotSupportedError. The rendered buffer has the channel
  count, length and sample rate of the context.
\<close>

definition renderMix ::
  "Platform \<Rightarrow> CreateDemoOptions \<Rightarrow> AudioBuffer list \<Rightarrow> AudioBuffer option
     \<Rightarrow> effect list \<times> (error + DemoResult)" where
  "renderMix env opts decodedBuffers tagBuffer =
     (let sampleRate_c = 44100;
          totalDur = totalOutputDuration opts decodedBuffers;
          requested = \<lceil>real sampleRate_c * totalDur\<rceil>;
          log5 = [NewOfflineAudioContext 2 requested sampleRate_c];
          len = nat (requested mod 2 ^ 32)
      in if len = 0 then (log5, Inl NotSupportedError)
         else
           case scheduleTags tagBuffer (tagInterval opts) totalDur of
             None \<Rightarrow> (log5, Inl NeverReturns)
           | Some tags \<Rightarrow>
               let ctx = \<lparr>channels_ctx = 2, length_ctx = len, sampleRate_ctx = sampleRate_c,
                          compressor = masterCompressor,
                          sources = scheduleTracks opts decodedBuffers @ tags\<rparr>;
                   log8 = log5 @ progress opts 60 @ [StartRendering]
               in case startRendering env ctx of
                    None \<Rightarrow> (log8, Inl RenderingRejected)
                  | Some samples \<Rightarrow>
                      (let renderedBuffer =
                             \<lparr>numberOfChannels = channels_ctx ctx, length_buf = length_ctx ctx,
                              sampleRate = sampleRate_ctx ctx, getChannelData = samples\<rparr>;
                           wavBlob = bufferToWav renderedBuffer
                       in (log8 @ progress opts 80 @ progress opts 90
                             @ [NewArrayBuffer (wavLength renderedBuffer)] @ progress opts 100,
                           Inr \<lparr>wav = wavBlob, mp3 = wavBlob\<rparr>)))"

subsection \<open>The entry point\<close>

definition createDemoMix ::
  "Platform \<Rightarrow> CreateDemoOptions \<Rightarrow> effect list \<times> (error + DemoResult)" where
  "createDemoMix env opts =
     (if tracks opts = [] then ([], Inl (Error ''No tracks provided''))
      else
        let log1 = progress opts 5 @ [NewAudioContext 44100]
        in case decodeTracks env opts (length (tracks opts)) 0 (tracks opts) of
             (log2, Inl e) \<Rightarrow> (log1 @ log2, Inl e)
           | (log2, Inr decodedBuffers) \<Rightarrow>
               (case decodeTag env (tagFile opts) of
                  (log3, tagBuffer) \<Rightarrow>
                    (case renderMix env opts decodedBuffers tagBuffer of
                       (log4, outcome) \<Rightarrow>
                         (log1 @ log2 @ log3 @ [CloseContext] @ progress opts 45 @ log4,
                          outcome))))"

subsection \<open>The gain of a source over time\<close>

text \<open>
  How the Web Audio API reads the automation of an AudioParam: the events are ordered by
  time (an event is put after those already there with the same time); the value starts
  as \<^verbatim>\<open>gain.value\<close> at time 0; a \<^verbatim>\<open>setValueAtTime\<close> holds its value from its time
  on; a \<^verbatim>\<open>linearRampToValueAtTime\<close> interpolates from the previous event's time and value
  to its own, and holds its value afterwards.
\<close>

fun eventTime :: "automation \<Rightarrow> real" where
  "eventTime (SetValueAtTime v t) = t"
| "eventTime (LinearRampToValueAtTime v t) = t"

fun insertEvent :: "automation \<Rightarrow> automation list \<Rightarrow> automation list" where
  "insertEvent e [] = [e]"
| "insertEvent e (x # xs) =
     (if eventTime e < eventTime x then e # x # xs else x # insertEvent e xs)"

fun valueFrom :: "real \<Rightarrow> real \<Rightarrow> automation list \<Rightarrow> real \<Rightarrow> real" where
  "valueFrom t0 v0 [] t = v0"
| "valueFrom t0 v0 (SetValueAtTime v1 t1 # es) t =
     (if t < t1 then v0 else valueFrom t1 v1 es t)"
| "valueFrom t0 v0 (LinearRampToValueAtTime v1 t1 # es) t =
     (if t < t1 then v0 + (v1 - v0) * ((t - t0) / (t1 - t0)) else valueFrom t1 v1 es t)"

definition gainAt :: "ScheduledSource \<Rightarrow> real \<Rightarrow> real" where
  "gainAt src t = valueFrom 0 (gain_value src) (fold insertEvent (gain_events src) []) t"

section \<open>Auxiliary definitions\<close>

text \<open>The 44 header bytes as \<^verbatim>\<open>bufferToWav\<close> leaves them before the data loop runs.\<close>

definition headerOf :: "AudioBuffer \<Rightarrow> byte list" where
  "headerOf buffer =
     view (writeHeader buffer (wavLength buffer)
             \<lparr>view = replicate (nat (wavLength buffer)) 0, pos = 0\<rparr>)"

text \<open>The gain a track is scheduled with (the local \<^verbatim>\<open>initialGain\<close>).\<close>

definition initialGain :: "CreateDemoOptions \<Rightarrow> real list \<Rightarrow> nat \<Rightarrow> real" where
  "initialGain opts gains index = (if normalize_opt opts then gains ! index else 1)"

text \<open>The source that one pass of the scheduling loop creates when the cursor is at \<open>cursor\<close>.\<close>

definition sourceAt ::
  "CreateDemoOptions \<Rightarrow> real \<Rightarrow> real \<Rightarrow> AudioBuffer \<Rightarrow> real \<Rightarrow> ScheduledSource" where
  "sourceAt opts g playDuration buffer cursor =
     \<lparr>buffer_src = buffer, gain_value = g,
      gain_events = [SetValueAtTime g (max cursor (cursor + playDuration - fadeDuration opts)),
                     LinearRampToValueAtTime 0 (cursor + playDuration)],
      start = cursor, stop = Some (cursor + playDuration)\<rparr>"

text \<open>The buffer a track decodes to, for tracks that do decode.\<close>

definition decoded :: "Platform \<Rightarrow> AudioTrack \<Rightarrow> AudioBuffer" where
  "decoded env t = the (decodeAudioData env (file_track t))"

text \<open>
  What a call returns once the offline context \<open>ctx\<close> is built: the rejection of
  \<^verbatim>\<open>startRendering\<close>, or the rendered buffer encoded twice.
\<close>

definition rendered :: "Platform \<Rightarrow> OfflineContext \<Rightarrow> error + DemoResult" where
  "rendered env ctx =
     (case startRendering env ctx of
        None \<Rightarrow> Inl RenderingRejected
      | Some samples \<Rightarrow>
          (let renderedBuffer =
                 \<lparr>numberOfChannels = channels_ctx ctx, length_buf = length_ctx ctx,
                  sampleRate = sampleRate_ctx ctx, getChannelData = samples\<rparr>
           in Inr \<lparr>wav = bufferToWav renderedBuffer, mp3 = bufferToWav renderedBuffer\<rparr>))"


section \<open>Example inputs\<close>

text \<open>A mono buffer of \<open>n\<close> frames at 44.1 kHz whose samples all have the value \<open>a\<close>.\<close>

definition steady :: "real \<Rightarrow> nat \<Rightarrow> AudioBuffer" where
  "steady a n =
     \<lparr>numberOfChannels = 1, length_buf = n, sampleRate = 44100, getChannelData = (\<lambda>c i. a)\<rparr>"

definition trackOf :: "string \<Rightarrow> File \<Rightarrow> AudioTrack" where
  "trackOf nm f =
     \<lparr>id_track = nm, file_track = f, name = nm, duration_track = 0, url = ''blob:'' @ nm\<rparr>"

text \<open>
  A platform on which a file decodes to as many frames as its first byte says (an empty file
  does not decode) and rendering yields silence; one track of a single frame, with the
  default options, and what \<^verbatim>\<open>createDemoMix\<close> renders and returns for it.
\<close>

definition shortPlatform :: Platform where
  "shortPlatform =
     \<lparr>decodeAudioData = (\<lambda>f. case f of [] \<Rightarrow> None | b # _ \<Rightarrow> Some (steady (1/4) (unat b))),
      startRendering = (\<lambda>ctx. Some (\<lambda>c i. 0))\<rparr>"

definition shortOptions :: CreateDemoOptions where
  "shortOptions = defaultOptions [trackOf ''a'' [1]]"

definition shortRendered :: AudioBuffer where
  "shortRendered =
     \<lparr>numberOfChannels = 2, length_buf = 1, sampleRate = 44100, getChannelData = (\<lambda>c i. 0)\<rparr>"

definition shortResult :: DemoResult where
  "shortResult = \<lparr>wav = bufferToWav shortRendered, mp3 = bufferToWav shortRendered\<rparr>"

text \<open>
  A platform on which every file decodes to 25000 s of audio, and one track of it with the
  segment cap raised to 25000 s: the mix is 1102500000 frames long.
\<close>

definition longPlatform :: Platform where
  "longPlatform =
     \<lparr>decodeAudioData = (\<lambda>f. Some (steady 0 1102500000)),
      startRendering = (\<lambda>ctx. Some (\<lambda>c i. 0))\<rparr>"

definition longOptions :: CreateDemoOptions where
  "longOptions = (defaultOptions [trackOf ''a'' [1]])\<lparr>segmentDuration := 25000\<rparr>"

definition longRendered :: AudioBuffer where
  "longRendered =
     \<lparr>numberOfChannels = 2, length_buf = 1102500000, sampleRate = 44100,
      getChannelData = (\<lambda>c i. 0)\<rparr>"

definition longResult :: DemoResult where
  "longResult = \<lparr>wav = bufferToWav longRendered, mp3 = bufferToWav longRendered\<rparr>"

text \<open>
  A platform on which every file decodes to 90 s of silence, and one track of it with a tag
  file, the segment cap raised to 90 s and the default tag interval of 30 s: a mix of 90 s.
\<close>

definition ninetyPlatform :: Platform where
  "ninetyPlatform =
     \<lparr>decodeAudioData = (\<lambda>f. Some (steady 0 3969000)),
      startRendering = (\<lambda>ctx. Some (\<lambda>c i. 0))\<rparr>"





text \<open>The mix of 90 s with a tag interval of \<open>2^-60\<close> s, less than half the spacing of the doubles at 5.\<close>

definition stuckOptions :: CreateDemoOptions where
  "stuckOptions =
     (defaultOptions [trackOf ''a'' [1]])
       \<lparr>segmentDuration := 90, tagFile := Some [2], tagInterval := 1 / 2 ^ 60\<rparr>"

section \<open>Bytes written and read back\<close>

text \<open>The four little-endian bytes of a number add up to its low 32 bits, the two to its low 16.\<close>

lemma div_256_256: "(d::int) div 256 div 256 = d div 65536"
  using zdiv_zmult2_eq [of 256 d 256] by simp

lemma div_65536_256: "(d::int) div 65536 div 256 = d div 16777216"
  using zdiv_zmult2_eq [of 256 d 65536] by simp

lemma mod32_split: "(d::int) mod 4294967296 = 256 * (d div 256 mod 16777216) + d mod 256"
  using zmod_zmult2_eq [of 16777216 d 256] by simp

lemma mod24_split:
  "((d::int) div 256) mod 16777216 = 256 * (d div 65536 mod 65536) + d div 256 mod 256"
  using zmod_zmult2_eq [of 65536 "d div 256" 256] by (simp add: div_256_256)

lemma mod16_split:
  "((d::int) div 65536) mod 65536 = 256 * (d div 16777216 mod 256) + d div 65536 mod 256"
  using zmod_zmult2_eq [of 256 "d div 65536" 256] by (simp add: div_65536_256)

lemma le32_int:
  "(d::int) mod 256 + 256 * (d div 256 mod 256) + 65536 * (d div 65536 mod 256)
     + 16777216 * (d div 16777216 mod 256) = d mod 4294967296"
  unfolding mod32_split mod24_split mod16_split by (simp add: algebra_simps)

lemma le16_int: "(d::int) mod 256 + 256 * (d div 256 mod 256) = d mod 65536"
  using zmod_zmult2_eq [of 256 d 256] by simp

lemma unat_byte_of_int: "unat (of_int d :: byte) = nat (d mod 256)"
  by (simp add: unat_eq_nat_uint uint_word_of_int)

lemma getUint32_bytes:
  "getUint32 v p = nat (d mod 4294967296)"
  if "v ! p = of_int d" "v ! (p + 1) = of_int (d div 256)"
     "v ! (p + 2) = of_int (d div 65536)" "v ! (p + 3) = of_int (d div 16777216)"
proof -
  have "int (getUint32 v p) = d mod 256 + 256 * (d div 256 mod 256) + 65536 * (d div 65536 mod 256)
     + 16777216 * (d div 16777216 mod 256)"
    using that by (simp add: getUint32_def unat_byte_of_int)
  then show ?thesis by (simp add: le32_int)
qed

lemma getUint16_bytes:
  "getUint16 v p = nat (d mod 65536)"
  if "v ! p = of_int d" "v ! (p + 1) = of_int (d div 256)"
proof -
  have "int (getUint16 v p) = d mod 256 + 256 * (d div 256 mod 256)"
    using that by (simp add: getUint16_def unat_byte_of_int)
  then show ?thesis by (simp add: le16_int)
qed

text \<open>A write changes the bytes under the cursor and no others.\<close>

lemma pos_setUint32 [simp]: "pos (setUint32 d w) = pos w + 4"
  by (simp add: setUint32_def)

lemma pos_setUint16 [simp]: "pos (setUint16 d w) = pos w + 2"
  by (simp add: setUint16_def)

lemma length_setUint32 [simp]: "length (view (setUint32 d w)) = length (view w)"
  by (simp add: setUint32_def view_setUint32_def)

lemma length_setUint16 [simp]: "length (view (setUint16 d w)) = length (view w)"
  by (simp add: setUint16_def view_setUint16_def)

lemma nth_setUint32_other:
  "k < pos w \<or> pos w + 4 \<le> k \<Longrightarrow> view (setUint32 d w) ! k = view w ! k"
  by (auto simp: setUint32_def view_setUint32_def)

lemma nth_setUint16_other:
  "k < pos w \<or> pos w + 2 \<le> k \<Longrightarrow> view (setUint16 d w) ! k = view w ! k"
  by (auto simp: setUint16_def view_setUint16_def)

lemma getUint32_setUint32_same:
  "pos w = q \<Longrightarrow> q + 4 \<le> length (view w) \<Longrightarrow> getUint32 (view (setUint32 d w)) q = nat (d mod 4294967296)"
  by (rule getUint32_bytes) (simp_all add: setUint32_def view_setUint32_def)

lemma getUint16_setUint16_same:
  "pos w = q \<Longrightarrow> q + 2 \<le> length (view w) \<Longrightarrow> getUint16 (view (setUint16 d w)) q = nat (d mod 65536)"
  by (rule getUint16_bytes) (simp_all add: setUint16_def view_setUint16_def)

lemma getUint32_setUint32_other:
  "q + 4 \<le> pos w \<or> pos w + 4 \<le> q \<Longrightarrow> getUint32 (view (setUint32 d w)) q = getUint32 (view w) q"
  by (auto simp: getUint32_def nth_setUint32_other)

lemma getUint32_setUint16_other:
  "q + 4 \<le> pos w \<or> pos w + 2 \<le> q \<Longrightarrow> getUint32 (view (setUint16 d w)) q = getUint32 (view w) q"
  by (auto simp: getUint32_def nth_setUint16_other)

lemma getUint16_setUint32_other:
  "q + 2 \<le> pos w \<or> pos w + 4 \<le> q \<Longrightarrow> getUint16 (view (setUint32 d w)) q = getUint16 (view w) q"
  by (auto simp: getUint16_def nth_setUint32_other)

lemma getUint16_setUint16_other:
  "q + 2 \<le> pos w \<or> pos w + 2 \<le> q \<Longrightarrow> getUint16 (view (setUint16 d w)) q = getUint16 (view w) q"
  by (auto simp: getUint16_def nth_setUint16_other)

lemma getAscii_cong:
  "(\<And>k. p \<le> k \<Longrightarrow> k < p + n \<Longrightarrow> v ! k = v' ! k) \<Longrightarrow> getAscii v p n = getAscii v' p n"
  by (simp add: getAscii_def)

lemma getAscii_setUint32_other:
  "q + n \<le> pos w \<or> pos w + 4 \<le> q \<Longrightarrow> getAscii (view (setUint32 d w)) q n = getAscii (view w) q n"
  by (rule getAscii_cong) (auto simp: nth_setUint32_other)

lemma getAscii_setUint16_other:
  "q + n \<le> pos w \<or> pos w + 2 \<le> q \<Longrightarrow> getAscii (view (setUint16 d w)) q n = getAscii (view w) q n"
  by (rule getAscii_cong) (auto simp: nth_setUint16_other)

lemma upt4: "[p..<p + 4] = [p, p + 1, p + 2, p + 3]"
  by (simp add: upt_rec)

lemma getAscii_setUint32_same:
  "pos w = q \<Longrightarrow> q + 4 \<le> length (view w) \<Longrightarrow>
   getAscii (view (setUint32 d w)) q 4 =
     map (\<lambda>x. char_of (nat (x mod 256))) [d, d div 256, d div 65536, d div 16777216]"
  by (simp add: getAscii_def upt4 setUint32_def view_setUint32_def unat_byte_of_int)

lemmas header_simps =
  getUint32_setUint32_same getUint16_setUint16_same
  getUint32_setUint32_other getUint32_setUint16_other
  getUint16_setUint32_other getUint16_setUint16_other

text \<open>The header, field by field, on any view of at least 44 bytes.\<close>

lemma writeHeader_view:
  fixes buffer len
  assumes "44 \<le> length v0"
  defines "H \<equiv> view (writeHeader buffer len \<lparr>view = v0, pos = 0\<rparr>)"
  shows "getUint32 H 4 = nat ((len - 8) mod 4294967296)"
    and "getUint32 H 16 = 16" and "getUint16 H 20 = 1"
    and "getUint16 H 22 = nat (int (numberOfChannels buffer) mod 65536)"
    and "getUint32 H 24 = nat (int (sampleRate buffer) mod 4294967296)"
    and "getUint32 H 28 = nat ((int (sampleRate buffer) * 2 * int (numberOfChannels buffer)) mod 4294967296)"
    and "getUint16 H 32 = nat ((int (numberOfChannels buffer) * 2) mod 65536)"
    and "getUint16 H 34 = 16"
    and "getUint32 H 40 = nat ((len - 44) mod 4294967296)"
    and "getAscii H 0 4 = ''RIFF''" and "getAscii H 8 4 = ''WAVE''"
    and "getAscii H 12 4 = ''fmt ''" and "getAscii H 36 4 = ''data''"
  using assms(1) unfolding H_def writeHeader_def Let_def
  by (simp_all add: header_simps getAscii_setUint32_same getAscii_setUint32_other
        getAscii_setUint16_other char_of_def bit_Suc_0_iff)

lemma writeHeader_pos: "pos (writeHeader buffer len w) = pos w + 44"
  by (simp add: writeHeader_def Let_def)

lemma writeHeader_length: "length (view (writeHeader buffer len w)) = length (view w)"
  by (simp add: writeHeader_def Let_def)

text \<open>The data loop writes from byte 44 on: it keeps the length and the header.\<close>

lemma writeSample_keeps:
  "length (fst (writeSample buffer p i st)) = length (fst st)"
  "k < 44 \<Longrightarrow> fst (writeSample buffer p i st) ! k = fst st ! k"
  by (cases st; simp add: writeSample_def view_setInt16_def)+

lemma fold_writeSample_keeps:
  "length (fst (fold (writeSample buffer p) cs st)) = length (fst st)"
  "k < 44 \<Longrightarrow> fst (fold (writeSample buffer p) cs st) ! k = fst st ! k"
  by (induction cs arbitrary: st) (simp_all add: writeSample_keeps)

lemma interleave_length:
  "length (fst (interleave buffer p st)) = length (fst st)"
proof (induction buffer p st rule: interleave.induct)
  case (1 buffer p st)
  then show ?case
    by (subst interleave.simps) (simp add: fold_writeSample_keeps)
qed

lemma interleave_nth:
  "k < 44 \<Longrightarrow> fst (interleave buffer p st) ! k = fst st ! k"
proof (induction buffer p st rule: interleave.induct)
  case (1 buffer p st)
  then show ?case
    by (subst interleave.simps) (simp add: fold_writeSample_keeps)
qed

lemma nat_wavLength: "nat (wavLength b) = length_buf b * numberOfChannels b * 2 + 44"
  by (simp add: wavLength_def nat_add_distrib nat_mult_distrib)

lemma bytes_bufferToWav:
  "bytes (bufferToWav b) = fst (interleave b 44 (headerOf b, 0))"
  by (simp add: bufferToWav_def headerOf_def Let_def writeHeader_pos split: prod.splits)

lemma length_bufferToWav: "length (bytes (bufferToWav b)) = nat (wavLength b)"
  by (simp add: bytes_bufferToWav interleave_length headerOf_def writeHeader_length)

lemma nth_bufferToWav: "k < 44 \<Longrightarrow> bytes (bufferToWav b) ! k = headerOf b ! k"
  by (simp add: bytes_bufferToWav interleave_nth)

section \<open>The timeline\<close>

lemma addTrack_step:
  "addTrack seg gap n b i (t, ds) =
     (t + min (duration b) seg + (if int i < int n - 1 then gap else 0),
      ds @ [min (duration b) seg])"
  by (simp add: addTrack_def Let_def)

lemma forEach_addTrack:
  "i + length bufs = n \<Longrightarrow>
   forEach (addTrack seg gap n) bufs i (t, ds) =
     (t + (\<Sum>b\<leftarrow>bufs. min (duration b) seg)
        + (if bufs = [] then 0 else gap * (real (length bufs) - 1)),
      ds @ map (\<lambda>b. min (duration b) seg) bufs)"
proof (induction bufs arbitrary: i t ds)
  case Nil
  then show ?case by simp
next
  case (Cons b bufs)
  have next_i: "(i + 1) + length bufs = n"
    using Cons.prems by simp
  have unfold: "forEach (addTrack seg gap n) (b # bufs) i (t, ds) =
      forEach (addTrack seg gap n) bufs (i + 1)
        (t + min (duration b) seg + (if int i < int n - 1 then gap else 0),
         ds @ [min (duration b) seg])"
    by (simp only: forEach.simps addTrack_step)
  show ?case
  proof (cases "bufs = []")
    case True
    with Cons.prems have "\<not> int i < int n - 1" by simp
    with True show ?thesis unfolding unfold by simp
  next
    case False
    with Cons.prems have "int i < int n - 1" by (cases bufs) auto
    with False show ?thesis
      unfolding unfold Cons.IH [OF next_i] by (simp add: algebra_simps)
  qed
qed

lemma timeline_eq:
  "timeline seg gap bufs =
     ((\<Sum>b\<leftarrow>bufs. min (duration b) seg)
        + (if bufs = [] then 0 else gap * (real (length bufs) - 1)),
      map (\<lambda>b. min (duration b) seg) bufs)"
  by (simp add: timeline_def forEach_addTrack)

section \<open>The gain adjustments\<close>

lemma length_forEach_levelTrack [simp]:
  "length (forEach levelTrack bufs i gains) = length gains"
  by (induction bufs arbitrary: i gains) (simp_all add: levelTrack_def Let_def)

lemma forEach_levelTrack_nth:
  "i + length bufs \<le> length gains \<Longrightarrow> k < length gains \<Longrightarrow>
   forEach levelTrack bufs i gains ! k =
     (if i \<le> k \<and> k < i + length bufs \<and> calculateRMS (bufs ! (k - i)) > 0
      then min (max (TARGET_RMS / calculateRMS (bufs ! (k - i))) 0.5) 3.0
      else gains ! k)"
proof (induction bufs arbitrary: i gains)
  case Nil
  then show ?case by simp
next
  case (Cons b bufs)
  let ?g = "levelTrack b i gains"
  have len: "length ?g = length gains" by (simp add: levelTrack_def Let_def)
  have step: "(i + 1) + length bufs \<le> length ?g" "k < length ?g"
    using Cons.prems len by simp_all
  have here: "?g ! k = (if k = i \<and> calculateRMS b > 0
                        then min (max (TARGET_RMS / calculateRMS b) 0.5) 3.0 else gains ! k)"
    using Cons.prems by (auto simp: levelTrack_def Let_def)
  show ?case
  proof (cases "k = i")
    case True
    then show ?thesis using Cons.IH [OF step] here by simp
  next
    case False
    then have "(b # bufs) ! (k - i) = bufs ! (k - (i + 1))" if "i \<le> k"
      using that by (simp add: nth_Cons')
    with False show ?thesis using Cons.IH [OF step] here by auto
  qed
qed

lemma length_gainAdjustments [simp]: "length (gainAdjustments nz bufs) = length bufs"
  by (simp add: gainAdjustments_def Let_def)

lemma gainAdjustments_nth:
  "idx < length bufs \<Longrightarrow>
   gainAdjustments nz bufs ! idx =
     (if nz \<and> calculateRMS (bufs ! idx) > 0
      then min (max (TARGET_RMS / calculateRMS (bufs ! idx)) 0.5) 3.0 else 1)"
  by (simp add: gainAdjustments_def Let_def forEach_levelTrack_nth)


section \<open>The scheduled tracks\<close>


lemma scheduleTrack_step:
  "scheduleTrack opts gains durs buffer index (cursor, srcs) =
     (cursor + durs ! index + silenceGap opts,
      srcs @ [sourceAt opts (initialGain opts gains index) (durs ! index) buffer cursor])"
  by (simp add: scheduleTrack_def sourceAt_def initialGain_def Let_def)

lemma forEach_scheduleTrack_length:
  "length (snd (forEach (scheduleTrack opts gains durs) bufs i (c, srcs)))
     = length srcs + length bufs"
  by (induction bufs arbitrary: i c srcs) (simp_all add: scheduleTrack_step)

lemma forEach_scheduleTrack_nth:
  "k < length bufs \<Longrightarrow>
   \<exists>cursor. snd (forEach (scheduleTrack opts gains durs) bufs i (c, srcs)) ! (length srcs + k)
     = sourceAt opts (initialGain opts gains (i + k)) (durs ! (i + k)) (bufs ! k) cursor"
proof (induction bufs arbitrary: i c srcs k)
  case Nil
  then show ?case by simp
next
  case (Cons b bufs)
  let ?src = "sourceAt opts (initialGain opts gains i) (durs ! i) b c"
  let ?c' = "c + durs ! i + silenceGap opts"
  have unfold: "forEach (scheduleTrack opts gains durs) (b # bufs) i (c, srcs)
      = forEach (scheduleTrack opts gains durs) bufs (i + 1) (?c', srcs @ [?src])"
    by (simp only: forEach.simps scheduleTrack_step)
  show ?case
  proof (cases k)
    case 0
    have keep: "snd (forEach (scheduleTrack opts gains durs) bufs j (c', xs)) ! m = xs ! m"
      if "m < length xs" for j c' xs m
      using that
    proof (induction bufs arbitrary: j c' xs)
      case Nil
      then show ?case by simp
    next
      case (Cons a bufs)
      then show ?case by (simp add: scheduleTrack_step nth_append)
    qed
    show ?thesis unfolding unfold using 0 keep [of "length srcs" "srcs @ [?src]"] by auto
  next
    case (Suc m)
    then have "m < length bufs" using Cons.prems by simp
    from Cons.IH [OF this, of "i + 1" ?c' "srcs @ [?src]"]
    show ?thesis unfolding unfold using Suc by simp
  qed
qed

lemma length_scheduleTracks [simp]: "length (scheduleTracks opts bufs) = length bufs"
  by (simp add: scheduleTracks_def Let_def forEach_scheduleTrack_length)

lemma forEach_addTrack_snd:
  "snd (forEach (addTrack seg gap n) bufs i (t, ds)) = ds @ map (\<lambda>b. min (duration b) seg) bufs"
  by (induction bufs arbitrary: i t ds) (simp_all add: addTrack_def Let_def)

lemma timeline_durs_nth: 
  "idx < length bufs \<Longrightarrow> snd (timeline seg gap bufs) ! idx = min (duration (bufs ! idx)) seg"
  by (simp add: timeline_def forEach_addTrack_snd)

lemma scheduleTracks_nth:
  "idx < length bufs \<Longrightarrow>
   \<exists>cursor. scheduleTracks opts bufs ! idx
     = sourceAt opts (initialGain opts (gainAdjustments (normalize_opt opts) bufs) idx)
         (min (duration (bufs ! idx)) (segmentDuration opts)) (bufs ! idx) cursor"
  using forEach_scheduleTrack_nth [of idx bufs opts "gainAdjustments (normalize_opt opts) bufs"
      "snd (timeline (segmentDuration opts) (silenceGap opts) bufs)" 0 0 "[]"]
  by (simp add: scheduleTracks_def Let_def timeline_durs_nth)

section \<open>The gain envelope\<close>

lemma gainAt_hold:
  "0 \<le> fadeDuration opts \<Longrightarrow> c \<le> t \<Longrightarrow> t < max c (c + d - fadeDuration opts) \<Longrightarrow>
   gainAt (sourceAt opts g d buffer c) t = g"
  by (auto simp: gainAt_def sourceAt_def max_def split: if_splits)

lemma gainAt_ramp:
  assumes "0 \<le> fadeDuration opts"
    and "max c (c + d - fadeDuration opts) \<le> t" and "t < c + d"
  shows "gainAt (sourceAt opts g d buffer c) t
           = g * ((c + d - t) / (c + d - max c (c + d - fadeDuration opts)))"
proof -
  let ?f = "max c (c + d - fadeDuration opts)"
  from assms have order: "\<not> c + d < ?f" "\<not> t < ?f" by linarith+
  then have "gainAt (sourceAt opts g d buffer c) t
      = g + (0 - g) * ((t - ?f) / (c + d - ?f))"
    using assms(3) by (simp add: gainAt_def sourceAt_def)
  also from assms have "c + d - ?f \<noteq> 0" by linarith
  then have "g + (0 - g) * ((t - ?f) / (c + d - ?f)) = g * ((c + d - t) / (c + d - ?f))"
    by (simp add: field_simps)
  finally show ?thesis .
qed

lemma gainAt_end:
  "0 \<le> fadeDuration opts \<Longrightarrow> gainAt (sourceAt opts g d buffer c) (c + d) = 0"
  by (auto simp: gainAt_def sourceAt_def max_def split: if_splits)

section \<open>The tag times\<close>

lemma scheduleTags_None [simp]: "scheduleTags None interval totalDur = Some []"
  by (simp add: scheduleTags_def)

section \<open>Decoding and the entry point\<close>


lemma decodeTracks_ok:
  "\<forall>t\<in>set ts. decodeAudioData env (file_track t) \<noteq> None \<Longrightarrow>
   snd (decodeTracks env opts n i ts) = Inr (map (decoded env) ts)"
proof (induction ts arbitrary: i)
  case Nil
  then show ?case by simp
next
  case (Cons t ts)
  then obtain b where b: "decodeAudioData env (file_track t) = Some b" by auto
  from Cons have "snd (decodeTracks env opts n (i + 1) ts) = Inr (map (decoded env) ts)" by simp
  then show ?case
    by (cases "decodeTracks env opts n (i + 1) ts") (simp add: b decoded_def Let_def)
qed

lemma decodeTracks_fail:
  "\<exists>t\<in>set ts. decodeAudioData env (file_track t) = None \<Longrightarrow>
   \<exists>t\<in>set ts. decodeAudioData env (file_track t) = None \<and>
     snd (decodeTracks env opts n i ts) = Inl (Error (''Could not decode audio file: '' @ name t))"
proof (induction ts arbitrary: i)
  case Nil
  then show ?case by simp
next
  case (Cons t ts)
  show ?case
  proof (cases "decodeAudioData env (file_track t)")
    case None
    then show ?thesis by (auto simp: Let_def)
  next
    case (Some b)
    with Cons.prems have "\<exists>t\<in>set ts. decodeAudioData env (file_track t) = None" by auto
    from Cons.IH [OF this, of "i + 1"] obtain u where u: "u \<in> set ts"
      "decodeAudioData env (file_track u) = None"
      "snd (decodeTracks env opts n (i + 1) ts) = Inl (Error (''Could not decode audio file: '' @ name u))"
      by auto
    from u(3) have "snd (decodeTracks env opts n i (t # ts)) = Inl (Error (''Could not decode audio file: '' @ name u))"
      by (cases "decodeTracks env opts n (i + 1) ts") (simp add: Some Let_def)
    with u(1,2) show ?thesis by auto
  qed
qed

lemma progress_tagFile [simp]: "progress (opts\<lparr>tagFile := x\<rparr>) = progress opts"
  by (intro ext) (simp add: progress_def)

lemma decodeTracks_tagFile [simp]:
  "decodeTracks env (opts\<lparr>tagFile := x\<rparr>) n i ts = decodeTracks env opts n i ts"
  by (induction ts arbitrary: i) (simp_all add: Let_def split: option.splits)

lemma scheduleTrack_tagFile [simp]:
  "scheduleTrack (opts\<lparr>tagFile := x\<rparr>) = scheduleTrack opts"
  by (intro ext) (simp add: scheduleTrack_def)

lemma scheduleTracks_tagFile [simp]:
  "scheduleTracks (opts\<lparr>tagFile := x\<rparr>) = scheduleTracks opts"
  by (intro ext) (simp add: scheduleTracks_def)

lemma renderMix_tagFile [simp]:
  "renderMix env (opts\<lparr>tagFile := x\<rparr>) bufs tb = renderMix env opts bufs tb"
  by (simp add: renderMix_def totalOutputDuration_def Let_def split: option.splits)

lemma createDemoMix_snd:
  "tracks opts \<noteq> [] \<Longrightarrow>
   snd (createDemoMix env opts) =
     (case snd (decodeTracks env opts (length (tracks opts)) 0 (tracks opts)) of
        Inl e \<Rightarrow> Inl e
      | Inr bufs \<Rightarrow> snd (renderMix env opts bufs (snd (decodeTag env (tagFile opts)))))"
  by (simp add: createDemoMix_def Let_def split: prod.splits sum.splits)

lemma createDemoMix_log:
  "tracks opts \<noteq> [] \<Longrightarrow> decodeTracks env opts (length (tracks opts)) 0 (tracks opts) = (log2, Inr bufs) \<Longrightarrow>
   fst (createDemoMix env opts) =
     progress opts 5 @ [NewAudioContext 44100] @ log2 @ fst (decodeTag env (tagFile opts))
       @ [CloseContext] @ progress opts 45
       @ fst (renderMix env opts bufs (snd (decodeTag env (tagFile opts))))"
  by (simp add: createDemoMix_def Let_def split: prod.splits sum.splits)

lemma renderMix_Inr:
  assumes "renderMix env opts bufs tb = (lg, Inr r)"
  shows "\<exists>samples len. 0 < len \<and> len < 2 ^ 32 \<and>
     wav r = bufferToWav \<lparr>numberOfChannels = 2, length_buf = len, sampleRate = 44100,
                          getChannelData = samples\<rparr> \<and> mp3 r = wav r"
proof -
  let ?len = "nat (\<lceil>real 44100 * totalOutputDuration opts bufs\<rceil> mod 2 ^ 32)"
  from assms obtain samples where pos: "?len \<noteq> 0"
    and r: "r = \<lparr>wav = bufferToWav \<lparr>numberOfChannels = 2, length_buf = ?len,
                     sampleRate = 44100, getChannelData = samples\<rparr>,
                  mp3 = bufferToWav \<lparr>numberOfChannels = 2, length_buf = ?len,
                     sampleRate = 44100, getChannelData = samples\<rparr>\<rparr>"
    by (auto simp: renderMix_def Let_def split: if_splits option.splits)
  have "?len < 2 ^ 32"
    by (simp add: nat_less_iff)
  with pos r show ?thesis
    by (intro exI [of _ samples] exI [of _ ?len]) simp
qed

section \<open>Facts used by several results\<close>

lemma createDemoMix_Inr:
  assumes "createDemoMix env opts = (lg, Inr r)"
  shows "\<exists>samples len. 0 < len \<and> len < 2 ^ 32 \<and>
     wav r = bufferToWav \<lparr>numberOfChannels = 2, length_buf = len, sampleRate = 44100,
                          getChannelData = samples\<rparr> \<and> mp3 r = wav r"
proof -
  from assms obtain bufs tb lg4 where "renderMix env opts bufs tb = (lg4, Inr r)"
    by (auto simp: createDemoMix_def Let_def split: if_splits prod.splits sum.splits)
  then show ?thesis by (rule renderMix_Inr)
qed

lemma short_run:
  "createDemoMix shortPlatform shortOptions =
     ([NewAudioContext 44100, DecodeAudio [1], CloseContext, NewOfflineAudioContext 2 1 44100,
       StartRendering, NewArrayBuffer 48], Inr shortResult)"
  by (simp add: createDemoMix_def shortPlatform_def shortOptions_def defaultOptions_def
        trackOf_def progress_def decodeTag_def renderMix_def totalOutputDuration_def
        timeline_eq duration_def steady_def shortResult_def shortRendered_def wavLength_def
        Let_def)

lemma gain_value_scheduled:
  assumes "idx < length bufs"
  shows "gain_value (scheduleTracks opts bufs ! idx)
           = initialGain opts (gainAdjustments (normalize_opt opts) bufs) idx"
proof -
  from scheduleTracks_nth [OF assms, of opts] obtain cursor where
    "scheduleTracks opts bufs ! idx
       = sourceAt opts (initialGain opts (gainAdjustments (normalize_opt opts) bufs) idx)
           (min (duration (bufs ! idx)) (segmentDuration opts)) (bufs ! idx) cursor" ..
  then show ?thesis by (simp add: sourceAt_def)
qed

lemma calculateRMS_steady_4: "calculateRMS (steady a 4) = \<bar>a\<bar>"
  by (simp add: calculateRMS_def steady_def sumSquares.simps)


lemma headerOf_long_enough: "44 \<le> length (replicate (nat (wavLength b)) (0::byte))"
  by (simp add: nat_wavLength)

lemma getUint32_bufferToWav:
  "q + 4 \<le> 44 \<Longrightarrow> getUint32 (bytes (bufferToWav b)) q = getUint32 (headerOf b) q"
  by (simp add: getUint32_def nth_bufferToWav)

lemma getUint16_bufferToWav:
  "q + 2 \<le> 44 \<Longrightarrow> getUint16 (bytes (bufferToWav b)) q = getUint16 (headerOf b) q"
  by (simp add: getUint16_def nth_bufferToWav)

lemma getAscii_bufferToWav:
  "q + n \<le> 44 \<Longrightarrow> getAscii (bytes (bufferToWav b)) q n = getAscii (headerOf b) q n"
  by (rule getAscii_cong) (simp add: nth_bufferToWav)

lemmas bufferToWav_reads = getUint32_bufferToWav getUint16_bufferToWav getAscii_bufferToWav

lemma bufferToWav_header:
  "getAscii (bytes (bufferToWav b)) 0 4 = ''RIFF''"
  "getUint32 (bytes (bufferToWav b)) 4 = nat ((wavLength b - 8) mod 4294967296)"
  "getAscii (bytes (bufferToWav b)) 8 4 = ''WAVE''"
  "getAscii (bytes (bufferToWav b)) 12 4 = ''fmt ''"
  "getUint32 (bytes (bufferToWav b)) 16 = 16"
  "getUint16 (bytes (bufferToWav b)) 20 = 1"
  "getUint16 (bytes (bufferToWav b)) 22 = nat (int (numberOfChannels b) mod 65536)"
  "getUint32 (bytes (bufferToWav b)) 24 = nat (int (sampleRate b) mod 4294967296)"
  "getUint32 (bytes (bufferToWav b)) 28
     = nat ((int (sampleRate b) * 2 * int (numberOfChannels b)) mod 4294967296)"
  "getUint16 (bytes (bufferToWav b)) 32 = nat ((int (numberOfChannels b) * 2) mod 65536)"
  "getUint16 (bytes (bufferToWav b)) 34 = 16"
  "getAscii (bytes (bufferToWav b)) 36 4 = ''data''"
  "getUint32 (bytes (bufferToWav b)) 40 = nat ((wavLength b - 44) mod 4294967296)"
  by (simp_all add: bufferToWav_reads headerOf_def writeHeader_view [OF headerOf_long_enough])

lemma long_run:
  "createDemoMix longPlatform longOptions =
     ([NewAudioContext 44100, DecodeAudio [1], CloseContext,
       NewOfflineAudioContext 2 1102500000 44100, StartRendering, NewArrayBuffer 4410000044],
      Inr longResult)"
  by (simp add: createDemoMix_def longPlatform_def longOptions_def defaultOptions_def
        trackOf_def progress_def decodeTag_def renderMix_def totalOutputDuration_def
        timeline_eq duration_def steady_def longResult_def longRendered_def wavLength_def
        Let_def)

section \<open>How far the code follows the specification's rules\<close>

text \<open>
  The quantization of the code is the stated one except on [-0.5, 0), where the code scales
  by 32767.
\<close>

lemma truncToZero_bounds:
  "- 32768 \<le> y \<Longrightarrow> y \<le> 32768 \<Longrightarrow> - 32768 \<le> truncToZero y \<and> truncToZero y \<le> 32768"
  by (auto simp: truncToZero_def ceiling_le_iff le_floor_iff le_ceiling_iff floor_le_iff)

lemma toInt32_small:
  "- 32768 \<le> y \<Longrightarrow> y \<le> 32768 \<Longrightarrow> toInt32 y = truncToZero y"
  using truncToZero_bounds [of y] by (simp add: toInt32_def)

lemma quantize_agrees:
  assumes "x < - (1 / 2) \<or> 0 \<le> x"
  shows "quantize x = quantize_spec x"
proof -
  let ?c = "clampSample x"
  have c: "- 1 \<le> ?c" "?c \<le> 1" by (simp_all add: clampSample_def)
  from assms have side: "(0.5 + ?c < 0) = (?c < 0)"
    by (auto simp: clampSample_def min_def max_def)
  have "- 32768 \<le> (if ?c < 0 then ?c * 32768 else ?c * 32767)"
       "(if ?c < 0 then ?c * 32768 else ?c * 32767) \<le> 32768"
    using c by auto
  then have "toInt32 (if ?c < 0 then ?c * 32768 else ?c * 32767)
      = truncToZero (if ?c < 0 then ?c * 32768 else ?c * 32767)"
    by (rule toInt32_small)
  then show ?thesis
    by (simp only: quantize_def quantize_spec_def scaleSample_def side Let_def)
qed

text \<open>
  The loudness of the code is the stated root mean square when the number of frames is a
  multiple of 4.
\<close>

lemma multiples_from:
  "i < n \<Longrightarrow> 4 dvd i \<Longrightarrow>
   {j. i \<le> j \<and> j < n \<and> 4 dvd j} = insert i {j. i + 4 \<le> j \<and> j < n \<and> 4 dvd (j::nat)}"
  by (auto elim!: dvdE)

lemma sumSquares_eq:
  "4 dvd i \<Longrightarrow>
   sumSquares data n i s = s + (\<Sum>j \<in> {j. i \<le> j \<and> j < n \<and> 4 dvd j}. (data j)\<^sup>2)"
proof (induction data n i s rule: sumSquares.induct)
  case (1 data n i s)
  show ?case
  proof (cases "i < n")
    case False
    then have e: "{j. i \<le> j \<and> j < n \<and> 4 dvd j} = {}" by auto
    from False have "sumSquares data n i s = s"
      by (simp add: sumSquares.simps [of data n i s])
    then show ?thesis by (simp only: e sum.empty add_0_right)
  next
    case True
    have fin: "finite {j. i + 4 \<le> j \<and> j < n \<and> 4 dvd j}" by simp
    have notin: "i \<notin> {j. i + 4 \<le> j \<and> j < n \<and> 4 dvd j}" by simp
    from "1.prems" have "4 dvd (i + 4)" by simp
    with "1.IH" True have "sumSquares data n (i + 4) (s + data i * data i)
        = s + data i * data i + (\<Sum>j \<in> {j. i + 4 \<le> j \<and> j < n \<and> 4 dvd j}. (data j)\<^sup>2)"
      by simp
    with True show ?thesis
      by (simp add: sumSquares.simps [of data n i s] multiples_from [OF True "1.prems"]
            sum.insert [OF fin notin] power2_eq_square)
  qed
qed

lemma sampledFrames_sum:
  "(\<Sum>i\<leftarrow>sampledFrames buffer. f i) = (\<Sum>j \<in> {j. 0 \<le> j \<and> j < length_buf buffer \<and> 4 dvd j}. f j)"
proof -
  have "distinct (sampledFrames buffer)" by (simp add: sampledFrames_def)
  moreover have "set (sampledFrames buffer) = {j. 0 \<le> j \<and> j < length_buf buffer \<and> 4 dvd j}"
    by (auto simp: sampledFrames_def dvd_eq_mod_eq_0)
  ultimately show ?thesis by (metis sum_list_distinct_conv_sum_set)
qed

lemma length_multiples: "length (filter (\<lambda>i. i mod 4 = 0) [0..<4 * m]) = m"
proof (induction m)
  case 0
  then show ?case by simp
next
  case (Suc m)
  have "4 * Suc m = 4 * m + 4" by simp
  then have "[0..<4 * Suc m] = [0..<4 * m] @ [4 * m..<4 * m + 4]"
    using upt_add_eq_append [of 0 "4 * m" 4] by (simp only: le0)
  then have "[0..<4 * Suc m] = [0..<4 * m] @ [4 * m, 4 * m + 1, 4 * m + 2, 4 * m + 3]"
    by (simp only: upt4)
  moreover have "Suc (4 * m) mod 4 = 1" "Suc (Suc (4 * m)) mod 4 = 2" "(4 * m + 3) mod 4 = 3"
    by presburger+
  ultimately show ?case using Suc by simp
qed

lemma calculateRMS_multiple_of_4:
  assumes "4 dvd length_buf buffer"
  shows "calculateRMS buffer = rms_spec buffer"
proof -
  from assms obtain m where m: "length_buf buffer = 4 * m" by (auto elim: dvdE)
  have "length (sampledFrames buffer) = m"
    by (simp add: sampledFrames_def m length_multiples)
  moreover have "real (length_buf buffer) / 4 = real m" by (simp add: m)
  ultimately show ?thesis
    by (simp add: calculateRMS_def rms_spec_def sumSquares_eq sampledFrames_sum Let_def)
qed

text \<open>
  The data loop of \<^verbatim>\<open>bufferToWav\<close> starts at frame 44, where the header left the cursor:
  a buffer of at most 44 frames is encoded as its header followed by zero bytes.
\<close>

lemma bufferToWav_skips_short_buffer:
  "length_buf b \<le> 44 \<Longrightarrow> bytes (bufferToWav b) = headerOf b"
  by (simp add: bytes_bufferToWav interleave.simps [of b 44])

section \<open>The tag loop\<close>

subsection \<open>Rounding to a double\<close>




text \<open>The exponent computed from a bit length is the floor of the binary logarithm.\<close>

lemma floor_log2_eq:
  assumes "2 powi e \<le> a" and "a < 2 powi (e + 1)"
  shows "\<lfloor>log 2 a\<rfloor> = e"
proof -
  from assms(1) have pos: "0 < a"
    using zero_less_power_int [of "2::real" e] by linarith
  have "2 powr (real_of_int e) = (2::real) powi e"
    "2 powr (real_of_int (e + 1)) = (2::real) powi (e + 1)"
    by (rule powr_real_of_int'; simp)+
  with assms have "2 powr (real_of_int e) \<le> a" "a < 2 powr (real_of_int (e + 1))"
    by (simp_all only:)
  then have "real_of_int e \<le> log 2 a" "log 2 a < real_of_int (e + 1)"
    using pos by (simp_all add: le_log_iff log_less_iff)
  then show ?thesis by linarith
qed

lemma exponent_log:
  "(if 1 \<le> \<bar>x\<bar> then bitlen \<lfloor>\<bar>x\<bar>\<rfloor> - 1 else - bitlen (\<lceil>1 / \<bar>x\<bar>\<rceil> - 1))
     = \<lfloor>log 2 \<bar>x\<bar>\<rfloor>"
proof (cases "1 \<le> \<bar>x\<bar>")
  case True
  let ?n = "\<lfloor>\<bar>x\<bar>\<rfloor>"
  from True have n: "0 < ?n" by linarith
  from bitlen_bounds [OF n] have b: "2 ^ nat (bitlen ?n - 1) \<le> ?n" "?n < 2 ^ nat (bitlen ?n)"
    by simp_all
  from n have b1: "1 \<le> bitlen ?n" by (auto simp: bitlen_alt_def)
  have "(2::real) powi (bitlen ?n - 1) = 2 ^ nat (bitlen ?n - 1)"
    using b1 by (simp add: power_int_def)
  also have "\<dots> = real_of_int (2 ^ nat (bitlen ?n - 1))" by simp
  also have "\<dots> \<le> real_of_int ?n" using b(1) by (simp only: of_int_le_iff)
  also have "\<dots> \<le> \<bar>x\<bar>" by linarith
  finally have lo: "2 powi (bitlen ?n - 1) \<le> \<bar>x\<bar>" .
  from b(2) have "?n + 1 \<le> 2 ^ nat (bitlen ?n)" by linarith
  then have "real_of_int (?n + 1) \<le> real_of_int (2 ^ nat (bitlen ?n))" by (simp only: of_int_le_iff)
  then have r1: "real_of_int ?n + 1 \<le> 2 ^ nat (bitlen ?n)" by simp
  have r2: "\<bar>x\<bar> < real_of_int ?n + 1" by linarith
  from r1 r2 have "\<bar>x\<bar> < 2 ^ nat (bitlen ?n)" by linarith
  also have "\<dots> = (2::real) powi (bitlen ?n - 1 + 1)"
    using b1 by (simp add: power_int_def)
  finally have hi: "\<bar>x\<bar> < 2 powi (bitlen ?n - 1 + 1)" .
  from floor_log2_eq [OF lo hi] True show ?thesis by simp
next
  case False
  show ?thesis
  proof (cases "x = 0")
    case True
    then show ?thesis by (simp add: log_def bitlen_alt_def)
  next
    case nz: False
    let ?y = "1 / \<bar>x\<bar>"
    let ?n = "\<lceil>?y\<rceil> - 1"
    let ?k = "bitlen ?n"
    from False nz have y: "1 < ?y" by simp
    then have n: "0 < ?n" by linarith
    from bitlen_bounds [OF n] have b: "2 ^ nat (?k - 1) \<le> ?n" "?n < 2 ^ nat ?k"
      by simp_all
    from n have k1: "1 \<le> ?k" by (auto simp: bitlen_alt_def)
    have up: "?y \<le> real_of_int ?n + 1" by linarith
    have down: "real_of_int ?n < ?y" by linarith
    from b(2) have "?n + 1 \<le> 2 ^ nat ?k" by linarith
    then have "real_of_int (?n + 1) \<le> real_of_int (2 ^ nat ?k)" by (simp only: of_int_le_iff)
    then have "real_of_int ?n + 1 \<le> 2 ^ nat ?k" by simp
    with up have "?y \<le> 2 ^ nat ?k" by linarith
    then have "1 \<le> 2 ^ nat ?k * \<bar>x\<bar>" using nz by (simp add: field_simps)
    then have "1 / 2 ^ nat ?k \<le> \<bar>x\<bar>" by (simp add: field_simps)
    moreover have "(2::real) powi (- ?k) = 1 / 2 ^ nat ?k"
      using k1 by (simp add: power_int_def field_simps)
    ultimately have lo: "2 powi (- ?k) \<le> \<bar>x\<bar>" by (simp only:)
    from b(1) have "real_of_int (2 ^ nat (?k - 1)) \<le> real_of_int ?n" by (simp only: of_int_le_iff)
    then have "2 ^ nat (?k - 1) \<le> real_of_int ?n" by simp
    with down have "2 ^ nat (?k - 1) < ?y" by linarith
    then have "\<bar>x\<bar> * 2 ^ nat (?k - 1) < 1" using nz by (simp add: field_simps)
    then have "\<bar>x\<bar> < 1 / 2 ^ nat (?k - 1)" by (simp add: field_simps)
    moreover have "(2::real) powi (- ?k + 1) = 1 / 2 ^ nat (?k - 1)"
    proof -
      have "- ?k + 1 = - (?k - 1)" by simp
      moreover have "(2::real) powi (- (?k - 1)) = 1 / 2 ^ nat (?k - 1)"
        using k1 by (simp add: power_int_def field_simps)
      ultimately show ?thesis by (simp only:)
    qed
    ultimately have hi: "\<bar>x\<bar> < 2 powi (- ?k + 1)" by (simp only:)
    from floor_log2_eq [OF lo hi] False show ?thesis by simp
  qed
qed


lemma binade_log: "binade x = max \<lfloor>log 2 \<bar>x\<bar>\<rfloor> (- 1022)"
  unfolding binade_def by (simp only: exponent_log)

lemma binade_eq:
  assumes "2 powi e \<le> \<bar>x\<bar>" and "\<bar>x\<bar> < 2 powi (e + 1)" and "- 1022 \<le> e"
  shows "binade x = e"
  using floor_log2_eq [OF assms(1,2)] assms(3) by (simp add: binade_log)

lemma toDouble_in_binade:
  assumes "2 powi e \<le> \<bar>x\<bar>" and "\<bar>x\<bar> < 2 powi (e + 1)" and "- 1022 \<le> e"
  shows "toDouble x = of_int (roundHalfEven (x / 2 powi (e - 52))) * 2 powi (e - 52)"
proof -
  from assms(1) have "0 < \<bar>x\<bar>"
    using zero_less_power_int [of "2::real" e] by linarith
  then have "x \<noteq> 0" by simp
  then show ?thesis by (simp add: toDouble_def ulp_def binade_eq [OF assms])
qed





subsection \<open>The loop ends when the cursor moves\<close>








subsection \<open>The loop does not end when the cursor is stuck\<close>

lemma tagLoop_stuck:
  assumes "fadd c iv = c" and "c < T"
  shows "tagLoop tb iv T c srcs = None"
proof (rule ccontr)
  assume "tagLoop tb iv T c srcs \<noteq> None"
  then obtain y where y: "tagLoop tb iv T c srcs = Some y" by blast
  have "\<not> (fadd c iv = c \<and> c < T)"
  proof (rule tagLoop.raw_induct
      [where P = "\<lambda>tb' iv' T' c' srcs' y'. \<not> (fadd c' iv' = c' \<and> c' < T')", OF _ y])
    fix tagLoop' tb' iv' T' c' srcs' y'
    assume ih: "\<And>tb iv T c srcs y. tagLoop' tb iv T c srcs = Some y \<Longrightarrow> \<not> (fadd c iv = c \<and> c < T)"
      and eq: "(if c' < T' then tagLoop' tb' iv' T' (fadd c' iv') (srcs' @ [tagSource tb' c'])
                else Some srcs') = Some y'"
    show "\<not> (fadd c' iv' = c' \<and> c' < T')"
    proof
      assume a: "fadd c' iv' = c' \<and> c' < T'"
      with eq have "tagLoop' tb' iv' T' c' (srcs' @ [tagSource tb' c']) = Some y'" by simp
      from ih [OF this] a show False by blast
    qed
  qed
  with assms show False by blast
qed

subsection \<open>The call with a tag\<close>

lemma renderMix_snd:
  "snd (renderMix env opts bufs tb) =
     (if nat (\<lceil>44100 * totalOutputDuration opts bufs\<rceil> mod 2 ^ 32) = 0 then Inl NotSupportedError
      else case scheduleTags tb (tagInterval opts) (totalOutputDuration opts bufs) of
             None \<Rightarrow> Inl NeverReturns
           | Some tags \<Rightarrow>
               rendered env
                 \<lparr>channels_ctx = 2,
                  length_ctx = nat (\<lceil>44100 * totalOutputDuration opts bufs\<rceil> mod 2 ^ 32),
                  sampleRate_ctx = 44100, compressor = masterCompressor,
                  sources = scheduleTracks opts bufs @ tags\<rparr>)"
  by (simp add: renderMix_def rendered_def Let_def split: option.splits)

lemma createDemoMix_tagged:
  assumes "tracks opts \<noteq> []"
    and "\<forall>t\<in>set (tracks opts). decodeAudioData env (file_track t) \<noteq> None"
    and "tagFile opts = Some f" and "decodeAudioData env f = Some tb"
  shows "snd (createDemoMix env opts)
           = snd (renderMix env opts (map (decoded env) (tracks opts)) (Some tb))"
  using assms by (simp add: createDemoMix_snd decodeTracks_ok decodeTag_def)

subsection \<open>Sums of doubles in the examples\<close>













lemma fadd_below_ulp: "fadd 5 (1 / 2 ^ 60) = 5"
  unfolding fadd_def by (subst toDouble_in_binade [of 2]) (simp_all add: roundHalfEven_def)

text \<open>
  With a tag interval of \<open>2^-60\<close> s in a mix of 90 s the cursor stays at 5 and the call does not
  return.
\<close>

lemma tag_loop_never_ends:
  "snd (createDemoMix ninetyPlatform stuckOptions) = Inl NeverReturns"
proof -
  have "snd (createDemoMix ninetyPlatform stuckOptions)
      = snd (renderMix ninetyPlatform stuckOptions
               (map (decoded ninetyPlatform) (tracks stuckOptions)) (Some (steady 0 3969000)))"
    by (rule createDemoMix_tagged [where f = "[2]"])
       (simp_all add: stuckOptions_def ninetyPlatform_def defaultOptions_def)
  moreover have "totalOutputDuration stuckOptions (map (decoded ninetyPlatform) (tracks stuckOptions)) = 90"
    by (simp add: totalOutputDuration_def timeline_def addTrack_def stuckOptions_def
        ninetyPlatform_def defaultOptions_def decoded_def trackOf_def steady_def duration_def Let_def)
  moreover have "scheduleTags (Some (steady 0 3969000)) (tagInterval stuckOptions) 90 = None"
    using tagLoop_stuck [OF fadd_below_ulp, of 90 "steady 0 3969000" "[]"]
    by (simp add: scheduleTags_def stuckOptions_def defaultOptions_def)
  ultimately show ?thesis
    by (simp add: renderMix_snd)
qed



section \<open>Results\<close>

text \<open>
  C1. For a non-empty list of decoded buffers, the total output duration computed in step 4
  is the sum over the tracks of \<open>min (duration, segmentDuration)\<close> plus \<open>silenceGap\<close> times
  the number of tracks minus one: a gap follows every track but the last. The equation is
  exact in the arithmetic of the model, so the two sides differ by less than one sample
  frame (1/44100 s). It holds for every \<open>segmentDuration\<close> and \<open>silenceGap\<close>, the defaults
  25 and 0.3 among them.
\<close>

theorem total_duration:
  assumes "decodedBuffers \<noteq> []"
  shows "totalOutputDuration opts decodedBuffers =
           (\<Sum>b\<leftarrow>decodedBuffers. min (duration b) (segmentDuration opts))
             + silenceGap opts * (real (length decodedBuffers) - 1)
         \<and> \<bar>totalOutputDuration opts decodedBuffers
              - ((\<Sum>b\<leftarrow>decodedBuffers. min (duration b) (segmentDuration opts))
                   + silenceGap opts * (real (length decodedBuffers) - 1))\<bar> < 1 / 44100"
  using assms by (simp add: totalOutputDuration_def timeline_eq)

text \<open>A 10 s and a 30 s buffer with the default options give 10 + 25 + 0.3 seconds.\<close>

theorem total_duration_witness:
  "[steady 0 441000, steady 0 1323000] \<noteq> []
   \<and> totalOutputDuration (defaultOptions []) [steady 0 441000, steady 0 1323000] = 10 + 25 + 0.3"
proof -
  have ne: "[steady 0 441000, steady 0 1323000] \<noteq> []" by simp
  have "(\<Sum>b\<leftarrow>[steady 0 441000, steady 0 1323000]. min (duration b) (segmentDuration (defaultOptions [])))
             + silenceGap (defaultOptions []) * (real (length [steady 0 441000, steady 0 1323000]) - 1)
        = 10 + 25 + 0.3"
    by (simp add: duration_def steady_def defaultOptions_def)
  with total_duration [OF ne, of "defaultOptions []"] ne show ?thesis
    by simp
qed

text \<open>
  C2. The specification has the encoder scale negative samples by 32768 and the others by
  32767. The code tests \<open>0.5 + sample < 0\<close>, so samples in [-0.5, 0) are scaled by 32767:
  the sample -0.25 is written as -8191, where the stated rule gives -8192.
\<close>

theorem quantize_threshold_off:
  "quantize (- (1 / 4)) = - 8191 \<and> quantize_spec (- (1 / 4)) = - 8192"
  by (simp add: quantize_def quantize_spec_def scaleSample_def clampSample_def toInt32_def
        truncToZero_def)

text \<open>
  C3. The claim as stated fails for long mixes: the length field of the RIFF header is 32
  bits wide, and \<^verbatim>\<open>setUint32\<close> keeps the low 32 bits of \<^verbatim>\<open>length - 8\<close>. A mix of
  1102500000 frames is encoded in 4410000044 bytes, and its length field holds 115032740,
  not 4410000036.
\<close>

theorem riff_length_wraps:
  "snd (createDemoMix longPlatform longOptions) = Inr longResult
   \<and> length (bytes (wav longResult)) - 8 = 4410000036
   \<and> getUint32 (bytes (wav longResult)) 4 = 115032740"
  by (simp add: long_run longResult_def longRendered_def length_bufferToWav nat_wavLength
        bufferToWav_header(2) wavLength_def)

text \<open>
  C3, amended. For every result of \<^verbatim>\<open>createDemoMix\<close>, the bytes of the WAV blob have
  \<^verbatim>\<open>RIFF\<close> at offsets 0-3, \<^verbatim>\<open>WAVE\<close> at offsets 8-11, and a \<^verbatim>\<open>fmt \<close> chunk of 16 bytes
  declaring format tag 1 (PCM), 2 channels, 44100 Hz, byte rate 44100 * 2 * 2, block align
  2 * 2 and 16 bits per sample; the length field at offset 4 is the total byte length
  minus 8 reduced modulo \<open>2^32\<close>, hence equal to the total byte length minus 8 whenever
  that is below \<open>2^32\<close>.
\<close>

theorem wav_header:
  assumes "createDemoMix env opts = (lg, Inr r)"
  shows "getAscii (bytes (wav r)) 0 4 = ''RIFF''
       \<and> getAscii (bytes (wav r)) 8 4 = ''WAVE''
       \<and> getAscii (bytes (wav r)) 12 4 = ''fmt ''
       \<and> getUint32 (bytes (wav r)) 16 = 16
       \<and> getUint16 (bytes (wav r)) 20 = 1
       \<and> getUint16 (bytes (wav r)) 22 = 2
       \<and> getUint32 (bytes (wav r)) 24 = 44100
       \<and> getUint32 (bytes (wav r)) 28 = 44100 * 2 * 2
       \<and> getUint16 (bytes (wav r)) 32 = 2 * 2
       \<and> getUint16 (bytes (wav r)) 34 = 16
       \<and> 44 < length (bytes (wav r))
       \<and> getUint32 (bytes (wav r)) 4 = (length (bytes (wav r)) - 8) mod 2 ^ 32
       \<and> (length (bytes (wav r)) - 8 < 2 ^ 32 \<longrightarrow>
            getUint32 (bytes (wav r)) 4 = length (bytes (wav r)) - 8)"
proof -
  from createDemoMix_Inr [OF assms] obtain samples len where len: "0 < len"
    and w: "wav r = bufferToWav \<lparr>numberOfChannels = 2, length_buf = len, sampleRate = 44100,
                          getChannelData = samples\<rparr>"
    by blast
  let ?b = "\<lparr>numberOfChannels = 2, length_buf = len, sampleRate = 44100,
                          getChannelData = samples\<rparr>"
  have n: "length (bytes (wav r)) = len * 4 + 44"
    by (simp add: w length_bufferToWav nat_wavLength)
  have e: "wavLength ?b - 8 = int (len * 4 + 36)"
    by (simp add: wavLength_def)
  have m: "length (bytes (wav r)) - 8 = len * 4 + 36"
    by (simp add: n)
  have "getUint32 (bytes (wav r)) 4 = nat (int (len * 4 + 36) mod 4294967296)"
    by (simp only: w bufferToWav_header(2) e)
  also have "int (len * 4 + 36) mod 4294967296 = int ((len * 4 + 36) mod 4294967296)"
    by (simp only: zmod_int of_nat_numeral)
  also have "nat (int ((len * 4 + 36) mod 4294967296)) = (len * 4 + 36) mod 2 ^ 32"
    by simp
  finally have riff: "getUint32 (bytes (wav r)) 4 = (length (bytes (wav r)) - 8) mod 2 ^ 32"
    by (simp only: m)
  show ?thesis
    using len riff n by (simp add: w bufferToWav_header)
qed

text \<open>The one-frame example: 48 bytes, with 40 in the length field.\<close>

theorem wav_header_witness:
  "createDemoMix shortPlatform shortOptions =
     ([NewAudioContext 44100, DecodeAudio [1], CloseContext, NewOfflineAudioContext 2 1 44100,
       StartRendering, NewArrayBuffer 48], Inr shortResult)
   \<and> getAscii (bytes (wav shortResult)) 0 4 = ''RIFF''
   \<and> getAscii (bytes (wav shortResult)) 8 4 = ''WAVE''
   \<and> getUint16 (bytes (wav shortResult)) 20 = 1
   \<and> getUint16 (bytes (wav shortResult)) 22 = 2
   \<and> getUint32 (bytes (wav shortResult)) 24 = 44100
   \<and> getUint16 (bytes (wav shortResult)) 34 = 16
   \<and> length (bytes (wav shortResult)) = 48
   \<and> getUint32 (bytes (wav shortResult)) 4 = 40"
proof -
  note h = wav_header [OF short_run]
  have n: "length (bytes (wav shortResult)) = 48"
    by (simp add: shortResult_def shortRendered_def length_bufferToWav nat_wavLength)
  from h have "length (bytes (wav shortResult)) - 8 < 2 ^ 32 \<longrightarrow>
            getUint32 (bytes (wav shortResult)) 4 = length (bytes (wav shortResult)) - 8"
    by blast
  with n have f: "getUint32 (bytes (wav shortResult)) 4 = 40" by simp
  from h n f short_run show ?thesis by blast
qed

text \<open>
  C4. With normalization on, the gain a track is scheduled with is its entry of
  \<^verbatim>\<open>gainAdjustments\<close>, which lies in [0.5, 3.0] and is exactly 1 when the measured rms is
  0; with normalization off the gain is exactly 1, whatever the loudness.
\<close>

theorem gain_bounds:
  assumes "idx < length decodedBuffers"
  shows "(normalize_opt opts \<longrightarrow>
            gain_value (scheduleTracks opts decodedBuffers ! idx)
              = gainAdjustments True decodedBuffers ! idx
            \<and> 0.5 \<le> gainAdjustments True decodedBuffers ! idx
            \<and> gainAdjustments True decodedBuffers ! idx \<le> 3.0
            \<and> (calculateRMS (decodedBuffers ! idx) = 0 \<longrightarrow>
                 gainAdjustments True decodedBuffers ! idx = 1))
       \<and> (\<not> normalize_opt opts \<longrightarrow>
            gain_value (scheduleTracks opts decodedBuffers ! idx) = 1
            \<and> gainAdjustments False decodedBuffers ! idx = 1)"
  using assms
  by (auto simp: gain_value_scheduled initialGain_def gainAdjustments_nth min_def max_def)

text \<open>
  With normalization on, a steady signal of amplitude 0.25 gets the gain 0.15 / 0.25 = 0.6
  and a silent buffer the gain 1; with normalization off the first gets the gain 1.
\<close>

theorem gain_bounds_witness:
  "gain_value (scheduleTracks ((defaultOptions [])\<lparr>normalize_opt := True\<rparr>)
                 [steady (1/4) 4, steady 0 4] ! 0) = 3 / 5
   \<and> gain_value (scheduleTracks ((defaultOptions [])\<lparr>normalize_opt := True\<rparr>)
                 [steady (1/4) 4, steady 0 4] ! 1) = 1
   \<and> gain_value (scheduleTracks (defaultOptions []) [steady (1/4) 4, steady 0 4] ! 0) = 1"
proof -
  let ?on = "(defaultOptions [])\<lparr>normalize_opt := True\<rparr>"
  let ?bufs = "[steady (1/4) 4, steady 0 4]"
  have i0: "0 < length ?bufs" and i1: "1 < length ?bufs" by simp_all
  have on: "normalize_opt ?on" and off: "\<not> normalize_opt (defaultOptions [])"
    by (simp_all add: defaultOptions_def)
  have silent: "calculateRMS (?bufs ! 1) = 0"
    by (simp add: calculateRMS_steady_4)
  have loud: "gainAdjustments True ?bufs ! 0 = 3 / 5"
    by (simp add: gainAdjustments_nth calculateRMS_steady_4 TARGET_RMS_def)
  from gain_bounds [OF i0, of ?on] on loud
  have a: "gain_value (scheduleTracks ?on ?bufs ! 0) = 3 / 5" by simp
  from gain_bounds [OF i1, of ?on] on silent
  have b: "gain_value (scheduleTracks ?on ?bufs ! 1) = 1" by simp
  from gain_bounds [OF i0, of "defaultOptions []"] off
  have c: "gain_value (scheduleTracks (defaultOptions []) ?bufs ! 0) = 1" by simp
  from a b c show ?thesis by blast
qed




text \<open>
  C6. For every scheduled track, with a fade duration that is not negative: the source
  plays from the window start to the window end (the start plus the play duration); its
  gain is set to the track's gain at \<open>fadeStart = max (start, end - fadeDuration)\<close>, which is
  never before the window start; the gain is the track's gain from the window start up to
  \<open>fadeStart\<close>, falls linearly from there, and is exactly 0 at the window end.
\<close>

theorem fade_envelope:
  assumes "idx < length decodedBuffers" and "0 \<le> fadeDuration opts"
  shows "\<exists>windowStart windowEnd fadeStart g.
           start (scheduleTracks opts decodedBuffers ! idx) = windowStart
         \<and> stop (scheduleTracks opts decodedBuffers ! idx) = Some windowEnd
         \<and> windowEnd = windowStart + min (duration (decodedBuffers ! idx)) (segmentDuration opts)
         \<and> gain_value (scheduleTracks opts decodedBuffers ! idx) = g
         \<and> g = initialGain opts (gainAdjustments (normalize_opt opts) decodedBuffers) idx
         \<and> fadeStart = max windowStart (windowEnd - fadeDuration opts)
         \<and> windowStart \<le> fadeStart
         \<and> (\<forall>t. windowStart \<le> t \<and> t < fadeStart \<longrightarrow>
                gainAt (scheduleTracks opts decodedBuffers ! idx) t = g)
         \<and> (\<forall>t. fadeStart \<le> t \<and> t < windowEnd \<longrightarrow>
                gainAt (scheduleTracks opts decodedBuffers ! idx) t
                  = g * ((windowEnd - t) / (windowEnd - fadeStart)))
         \<and> gainAt (scheduleTracks opts decodedBuffers ! idx) windowEnd = 0"
proof -
  let ?g = "initialGain opts (gainAdjustments (normalize_opt opts) decodedBuffers) idx"
  let ?d = "min (duration (decodedBuffers ! idx)) (segmentDuration opts)"
  from scheduleTracks_nth [OF assms(1), of opts] obtain c where
    src: "scheduleTracks opts decodedBuffers ! idx = sourceAt opts ?g ?d (decodedBuffers ! idx) c" ..
  let ?f = "max c (c + ?d - fadeDuration opts)"
  show ?thesis
    unfolding src
    by (intro exI [of _ c] exI [of _ "c + ?d"] exI [of _ ?f] exI [of _ ?g])
       (use assms(2) in \<open>simp add: gainAt_hold gainAt_ramp gainAt_end\<close>,
        simp add: sourceAt_def)
qed

text \<open>
  A 10 s track with the default options: the gain is 1 at 3 s, half way down the ramp
  (0.5) at 9.75 s, and 0 at 10 s.
\<close>

theorem fade_envelope_witness:
  "start (scheduleTracks (defaultOptions []) [steady 0 441000] ! 0) = 0
   \<and> stop (scheduleTracks (defaultOptions []) [steady 0 441000] ! 0) = Some 10
   \<and> gainAt (scheduleTracks (defaultOptions []) [steady 0 441000] ! 0) 3 = 1
   \<and> gainAt (scheduleTracks (defaultOptions []) [steady 0 441000] ! 0) (39 / 4) = 1 / 2
   \<and> gainAt (scheduleTracks (defaultOptions []) [steady 0 441000] ! 0) 10 = 0"
proof -
  let ?opts = "defaultOptions []"
  let ?bufs = "[steady 0 441000]"
  let ?src = "scheduleTracks ?opts ?bufs ! 0"
  have i0: "0 < length ?bufs" by simp
  have fd: "0 \<le> fadeDuration ?opts" by (simp add: defaultOptions_def)
  have s0: "start ?src = 0"
    by (simp add: scheduleTracks_def scheduleTrack_def Let_def)
  have d: "min (duration (?bufs ! 0)) (segmentDuration ?opts) = 10"
    by (simp add: duration_def steady_def defaultOptions_def)
  have g1: "initialGain ?opts (gainAdjustments (normalize_opt ?opts) ?bufs) 0 = 1"
    by (simp add: initialGain_def defaultOptions_def)
  have fdv: "fadeDuration ?opts = 1 / 2"
    by (simp add: defaultOptions_def)
  from fade_envelope [OF i0 fd] obtain ws we fs g where
    a: "start ?src = ws" "stop ?src = Some we"
       "we = ws + min (duration (?bufs ! 0)) (segmentDuration ?opts)"
       "g = initialGain ?opts (gainAdjustments (normalize_opt ?opts) ?bufs) 0"
       "fs = max ws (we - fadeDuration ?opts)"
    and hold: "\<forall>t. ws \<le> t \<and> t < fs \<longrightarrow> gainAt ?src t = g"
    and ramp: "\<forall>t. fs \<le> t \<and> t < we \<longrightarrow> gainAt ?src t = g * ((we - t) / (we - fs))"
    and fin: "gainAt ?src we = 0"
    by blast
  from a s0 d g1 fdv have v: "ws = 0" "we = 10" "g = 1" "fs = 19 / 2" by simp_all
  from hold [rule_format, of 3] v have h3: "gainAt ?src 3 = 1" by simp
  from ramp [rule_format, of "39 / 4"] v have h4: "gainAt ?src (39 / 4) = 1 / 2" by simp
  from fin v have h5: "gainAt ?src 10 = 0" by simp
  from a(2) v have h2: "stop ?src = Some 10" by simp
  from s0 h2 h3 h4 h5 show ?thesis by blast
qed

text \<open>
  C7. With an empty track list the call ends at once with the error
  \<^verbatim>\<open>No tracks provided\<close>: the effect log is empty (no progress report, no audio context,
  no decoding, no offline context, no array buffer) and there is no result.
\<close>

theorem no_tracks_fails_first:
  "createDemoMix env (opts\<lparr>tracks := []\<rparr>) = ([], Inl (Error ''No tracks provided''))"
  by (simp add: createDemoMix_def)

text \<open>
  C8. When the tag file is there but does not decode, the call has the outcome of the same
  call without a tag file: it is rendered with no tag buffer, hence with no tag source,
  and the warning is logged. When a track does not decode, the call ends with the error
  \<^verbatim>\<open>Could not decode audio file\<close> naming a track that failed, and there is no result.
\<close>

theorem tag_decode_failure_not_fatal:
  "(tagFile opts = Some f \<and> decodeAudioData env f = None \<longrightarrow>
      snd (createDemoMix env opts) = snd (createDemoMix env (opts\<lparr>tagFile := None\<rparr>))
      \<and> (tracks opts \<noteq> [] \<and> (\<forall>t\<in>set (tracks opts). decodeAudioData env (file_track t) \<noteq> None) \<longrightarrow>
           ConsoleWarn ''Failed to decode tag file, proceeding without tags.''
             \<in> set (fst (createDemoMix env opts))
           \<and> (\<exists>before after.
                 fst (createDemoMix env (opts\<lparr>tagFile := None\<rparr>)) = before @ after
                 \<and> fst (createDemoMix env opts)
                     = before @ [DecodeAudio f,
                         ConsoleWarn ''Failed to decode tag file, proceeding without tags.'']
                       @ after)
           \<and> snd (createDemoMix env opts)
               = snd (renderMix env opts (map (decoded env) (tracks opts)) None)))
   \<and> ((\<exists>t\<in>set (tracks opts). decodeAudioData env (file_track t) = None) \<longrightarrow>
        (\<exists>t\<in>set (tracks opts). decodeAudioData env (file_track t) = None \<and>
           snd (createDemoMix env opts) = Inl (Error (''Could not decode audio file: '' @ name t))))"
proof (intro conjI impI)
  assume tag: "tagFile opts = Some f \<and> decodeAudioData env f = None"
  then have dt: "decodeTag env (tagFile opts) =
      ([DecodeAudio f, ConsoleWarn ''Failed to decode tag file, proceeding without tags.''], None)"
    by (simp add: decodeTag_def)
  have dn: "decodeTag env None = ([], None)" by (simp add: decodeTag_def)
  show "snd (createDemoMix env opts) = snd (createDemoMix env (opts\<lparr>tagFile := None\<rparr>))"
  proof (cases "tracks opts = []")
    case True
    then show ?thesis by (simp add: createDemoMix_def)
  next
    case False
    then show ?thesis by (simp add: createDemoMix_snd dt dn split: sum.splits)
  qed
  assume ok: "tracks opts \<noteq> [] \<and> (\<forall>t\<in>set (tracks opts). decodeAudioData env (file_track t) \<noteq> None)"
  then have bufs: "snd (decodeTracks env opts (length (tracks opts)) 0 (tracks opts))
      = Inr (map (decoded env) (tracks opts))"
    by (simp add: decodeTracks_ok)
  then obtain log2 where "decodeTracks env opts (length (tracks opts)) 0 (tracks opts)
      = (log2, Inr (map (decoded env) (tracks opts)))"
    by (cases "decodeTracks env opts (length (tracks opts)) 0 (tracks opts)") simp
  then have log2': "decodeTracks env (opts\<lparr>tagFile := None\<rparr>)
        (length (tracks (opts\<lparr>tagFile := None\<rparr>))) 0 (tracks (opts\<lparr>tagFile := None\<rparr>))
      = (log2, Inr (map (decoded env) (tracks opts)))"
    by simp
  note log2 = \<open>decodeTracks env opts (length (tracks opts)) 0 (tracks opts)
      = (log2, Inr (map (decoded env) (tracks opts)))\<close>
  from ok log2 show "ConsoleWarn ''Failed to decode tag file, proceeding without tags.''
             \<in> set (fst (createDemoMix env opts))"
    by (simp add: createDemoMix_log dt)
  let ?before = "progress opts 5 @ [NewAudioContext 44100] @ log2"
  let ?after = "[CloseContext] @ progress opts 45
      @ fst (renderMix env opts (map (decoded env) (tracks opts)) None)"
  from ok have ne': "tracks (opts\<lparr>tagFile := None\<rparr>) \<noteq> []" by simp
  have untagged: "fst (createDemoMix env (opts\<lparr>tagFile := None\<rparr>)) = ?before @ ?after"
    by (simp add: createDemoMix_log [OF ne' log2'] dn)
  from ok have tagged: "fst (createDemoMix env opts)
      = ?before @ [DecodeAudio f,
          ConsoleWarn ''Failed to decode tag file, proceeding without tags.''] @ ?after"
    by (simp add: createDemoMix_log [OF _ log2] dt)
  from untagged tagged show "\<exists>before after.
      fst (createDemoMix env (opts\<lparr>tagFile := None\<rparr>)) = before @ after
      \<and> fst (createDemoMix env opts)
          = before @ [DecodeAudio f,
              ConsoleWarn ''Failed to decode tag file, proceeding without tags.'']
            @ after"
    by blast
  from ok bufs show "snd (createDemoMix env opts)
               = snd (renderMix env opts (map (decoded env) (tracks opts)) None)"
    by (simp add: createDemoMix_snd dt)
next
  assume bad: "\<exists>t\<in>set (tracks opts). decodeAudioData env (file_track t) = None"
  then have ne: "tracks opts \<noteq> []" by auto
  from decodeTracks_fail [OF bad, of opts "length (tracks opts)" 0]
  show "\<exists>t\<in>set (tracks opts). decodeAudioData env (file_track t) = None \<and>
           snd (createDemoMix env opts) = Inl (Error (''Could not decode audio file: '' @ name t))"
    by (auto simp: createDemoMix_snd [OF ne])
qed

text \<open>
  On the example platform the empty file does not decode. As a tag file it leaves the result
  of the one-frame example unchanged and logs the warning; as the file of the second track
  it ends the call with the error naming that track.
\<close>

theorem tag_decode_failure_not_fatal_witness:
  "snd (createDemoMix shortPlatform (shortOptions\<lparr>tagFile := Some []\<rparr>)) = Inr shortResult
   \<and> ConsoleWarn ''Failed to decode tag file, proceeding without tags.''
        \<in> set (fst (createDemoMix shortPlatform (shortOptions\<lparr>tagFile := Some []\<rparr>)))
   \<and> snd (createDemoMix shortPlatform (defaultOptions [trackOf ''a'' [1], trackOf ''b'' []]))
        = Inl (Error ''Could not decode audio file: b'')"
proof -
  let ?tagged = "shortOptions\<lparr>tagFile := Some []\<rparr>"
  let ?broken = "defaultOptions [trackOf ''a'' [1], trackOf ''b'' []]"
  have tag: "tagFile ?tagged = Some [] \<and> decodeAudioData shortPlatform [] = None"
    by (simp add: shortPlatform_def)
  have ok: "tracks ?tagged \<noteq> []
      \<and> (\<forall>t\<in>set (tracks ?tagged). decodeAudioData shortPlatform (file_track t) \<noteq> None)"
    by (simp add: shortOptions_def defaultOptions_def trackOf_def shortPlatform_def)
  have same: "?tagged\<lparr>tagFile := None\<rparr> = shortOptions"
    by (simp add: shortOptions_def defaultOptions_def)
  note t1 = tag_decode_failure_not_fatal [of ?tagged "[]" shortPlatform]
  from t1 tag have "snd (createDemoMix shortPlatform ?tagged)
      = snd (createDemoMix shortPlatform (?tagged\<lparr>tagFile := None\<rparr>))" by blast
  then have a: "snd (createDemoMix shortPlatform ?tagged) = Inr shortResult"
    by (simp only: same short_run snd_conv)
  from t1 tag ok have b: "ConsoleWarn ''Failed to decode tag file, proceeding without tags.''
        \<in> set (fst (createDemoMix shortPlatform ?tagged))" by blast
  have bad: "\<exists>t\<in>set (tracks ?broken). decodeAudioData shortPlatform (file_track t) = None"
    by (simp add: defaultOptions_def trackOf_def shortPlatform_def)
  note t2 = tag_decode_failure_not_fatal [of ?broken "[]" shortPlatform]
  from t2 bad obtain t where t: "t \<in> set (tracks ?broken)"
    "decodeAudioData shortPlatform (file_track t) = None"
    "snd (createDemoMix shortPlatform ?broken) = Inl (Error (''Could not decode audio file: '' @ name t))"
    by blast
  from t(1,2) have "name t = ''b''"
    by (auto simp: defaultOptions_def trackOf_def shortPlatform_def)
  with t(3) have c: "snd (createDemoMix shortPlatform ?broken)
        = Inl (Error ''Could not decode audio file: b'')" by simp
  from a b c show ?thesis by blast
qed

text \<open>
  C9. The specification has the analyzer return the root of the mean of the squares of the
  sampled frames. The code divides the sum by \<open>length / 4\<close>, which is the number of sampled
  frames only when the length is a multiple of 4: for a buffer of one frame of value 1 it
  returns 2, where the mean over the one sampled frame gives 1.
\<close>

theorem calculateRMS_one_frame:
  "calculateRMS (steady 1 1) = 2 \<and> rms_spec (steady 1 1) = 1"
  by (simp add: calculateRMS_def rms_spec_def sampledFrames_def steady_def sumSquares.simps)

text \<open>
  C10. Whenever \<^verbatim>\<open>createDemoMix\<close> returns a result, the blob labelled \<^verbatim>\<open>wav\<close> and the blob
  labelled \<^verbatim>\<open>mp3\<close> are the same blob, so they hold identical bytes.
\<close>

theorem wav_and_mp3_identical:
  "createDemoMix env opts = (lg, Inr r) \<Longrightarrow> bytes (wav r) = bytes (mp3 r) \<and> wav r = mp3 r"
  using createDemoMix_Inr [of env opts lg r] by auto

text \<open>The one-frame example returns a result, and its two blobs are identical.\<close>

theorem wav_and_mp3_identical_witness:
  "createDemoMix shortPlatform shortOptions =
     ([NewAudioContext 44100, DecodeAudio [1], CloseContext, NewOfflineAudioContext 2 1 44100,
       StartRendering, NewArrayBuffer 48], Inr shortResult)
   \<and> bytes (wav shortResult) = bytes (mp3 shortResult) \<and> wav shortResult = mp3 shortResult"
  using wav_and_mp3_identical [OF short_run] short_run by blast

end
